theory Spec2Isabelle
  imports Complex_Main "HOL-Library.Log_Nat"
begin

section \<open>Numbers, truncation and saturation\<close>

text \<open>
  The control loop of \<^verbatim>\<open>control_node.py\<close> computes with Python and numpy floats.
  In the model of the loop they are real numbers: the claims about the loop concern which
  value goes where, comparisons and clamps.  Where the loop calls \<^verbatim>\<open>truncate\<close>, the model
  has \<open>truncate2\<close>, the formula of \<^verbatim>\<open>truncate\<close> in exact arithmetic: an idealisation,
  which the program's floats do not follow in every input.  What \<^verbatim>\<open>truncate\<close> itself
  returns on binary64 floats is \<open>truncate2_f64\<close>, in a section of its own further down,
  and the claim about \<^verbatim>\<open>truncate\<close> is settled on that function only.

  \<^verbatim>\<open>int(v)\<close> on a float truncates toward zero.
\<close>

definition py_int :: "real \<Rightarrow> int" where
  "py_int v = (if 0 \<le> v then \<lfloor>v\<rfloor> else \<lceil>v\<rceil>)"

text \<open>
  \<^verbatim>\<open>def truncate(self, data, dp = 2): return (int(data*(10**dp)))/(10**dp)\<close>
  (lines 105-107), in exact arithmetic \<open>truncate_dp\<close>.  Every call in the file leaves
  \<^verbatim>\<open>dp\<close> at its default, which is \<open>truncate2\<close>.
\<close>

definition truncate_dp :: "real \<Rightarrow> nat \<Rightarrow> real" where
  "truncate_dp a dp = real_of_int (py_int (a * 10 ^ dp)) / 10 ^ dp"

definition truncate2 :: "real \<Rightarrow> real" where
  "truncate2 a = truncate_dp a 2"

text \<open>
  \<^verbatim>\<open>value_limit\<close> (lines 96-103).
\<close>

definition value_limit :: "real \<Rightarrow> real \<Rightarrow> real" where
  "value_limit v limit =
     (if \<bar>v\<bar> \<ge> limit then (if v < 0 then - limit else limit) else v)"

text \<open>
  The inline clamp of roll and pitch (lines 268-269):
  \<^verbatim>\<open>next if abs(next) <= LIMIT else (-1 if next < 0 else 1)*LIMIT\<close>.
\<close>

definition axis_limit :: "real \<Rightarrow> real \<Rightarrow> real" where
  "axis_limit v limit = (if \<bar>v\<bar> \<le> limit then v else (if v < 0 then - 1 else 1) * limit)"

text \<open>
  \<^verbatim>\<open>v if abs(d<3) else 0\<close> (lines 180, 181, 244-247): the comparison \<^verbatim>\<open>d<3\<close>
  is evaluated first, \<^verbatim>\<open>abs\<close> is applied to the resulting bool (0 or 1), and the
  conditional tests that number for truth.
\<close>

definition abs_lt3 :: "real \<Rightarrow> int" where
  "abs_lt3 d = \<bar>of_bool (d < 3)\<bar>"

definition if_abs_lt3 :: "real \<Rightarrow> real \<Rightarrow> real" where
  "if_abs_lt3 d v = (if abs_lt3 d \<noteq> 0 then v else 0)"

text \<open>Truth value of a variable that holds \<^verbatim>\<open>None\<close> or a float.\<close>

definition truthy :: "real option \<Rightarrow> bool" where
  "truthy v = (case v of None \<Rightarrow> False | Some r \<Rightarrow> r \<noteq> 0)"

section \<open>Configuration (\<^verbatim>\<open>__init__\<close>, lines 12-54)\<close>

definition PERIOD :: real where "PERIOD = 1 / 100"
definition ABS_MAX_VALUE_ROLL :: real where "ABS_MAX_VALUE_ROLL = 100"
definition ABS_MAX_VALUE_PITCH :: real where "ABS_MAX_VALUE_PITCH = 150"
definition ABS_MAX_VALUE_THROTTLE :: real where "ABS_MAX_VALUE_THROTTLE = 150"
definition TAKEOFF_ALTITUDE :: real where "TAKEOFF_ALTITUDE = 1"
definition PX_GAIN :: real where "PX_GAIN = 100"
definition IX_GAIN :: real where "IX_GAIN = 0.005"
definition DX_GAIN :: real where "DX_GAIN = 22"
definition PY_GAIN :: real where "PY_GAIN = 100"
definition IY_GAIN :: real where "IY_GAIN = 0.005"
definition DY_GAIN :: real where "DY_GAIN = 22"
definition PZ_GAIN :: real where "PZ_GAIN = 60"
definition IZ_GAIN :: real where "IZ_GAIN = 0.05"
definition DZ_GAIN :: real where "DZ_GAIN = 30"

text \<open>
  The takeoff curve (lines 24-27): \<^verbatim>\<open>TAKEOFF_LIST[t] = 1-(1/np.exp(t))\<close> for
  \<^verbatim>\<open>t\<close> in \<^verbatim>\<open>range(20)\<close>.  The length is a parameter here; the source has 20.
\<close>

definition takeoff_fraction :: "nat \<Rightarrow> real" where
  "takeoff_fraction t = 1 - 1 / exp (real t)"

definition takeoff_profile :: "nat \<Rightarrow> real list" where
  "takeoff_profile n = map takeoff_fraction [0..<n]"

section \<open>Data\<close>

text \<open>
  numpy arrays of fixed shape are total functions on their indices; the loop only reads
  and writes constant positions inside the shapes it set up.
\<close>

type_synonym mat = "nat \<Rightarrow> nat \<Rightarrow> real"

definition mat_of :: "real list list \<Rightarrow> mat" where
  "mat_of rows = (\<lambda>i j. if i < length rows \<and> j < length (rows ! i) then rows ! i ! j else 0)"

definition diag_of :: "real list \<Rightarrow> mat" where
  "diag_of ds = (\<lambda>i j. if i = j \<and> i < length ds then ds ! i else 0)"

definition mat_scale :: "real \<Rightarrow> mat \<Rightarrow> mat" where
  "mat_scale c M = (\<lambda>i j. c * M i j)"

definition mat_set :: "mat \<Rightarrow> nat \<Rightarrow> nat \<Rightarrow> real \<Rightarrow> mat" where
  "mat_set M i j v = M(i := (M i)(j := v))"

text \<open>The fields of a filterpy \<^verbatim>\<open>KalmanFilter\<close> that the loop touches.\<close>

record kalman =
  kf_x :: mat
  kf_P :: mat
  kf_F :: mat
  kf_B :: mat
  kf_H :: mat
  kf_Q :: mat
  kf_R :: mat

text \<open>
  \<^verbatim>\<open>self.imu = [[accX,accY,accZ], [gyroX,gyroY,gyroZ], [roll,pitch,yaw]]\<close>.
\<close>

record imu_sample =
  accX :: real
  accY :: real
  accZ :: real
  gyroX :: real
  gyroY :: real
  gyroZ :: real
  imu_roll :: real
  imu_pitch :: real
  imu_yaw :: real

record cmds =
  throttle :: real
  roll :: real
  pitch :: real

datatype exn = UnboundLocalError string | TypeError | OverflowError | ValueError

text \<open>
  The external code the loop calls: filterpy's \<^verbatim>\<open>KalmanFilter\<close> (constructor,
  \<^verbatim>\<open>predict(u)\<close>, \<^verbatim>\<open>update(z)\<close>) and the \<^verbatim>\<open>PID\<close> class of module \<^verbatim>\<open>pid\<close>
  (constructor, \<^verbatim>\<open>calc(error, time, velocity)\<close>, the time being optional).  None of them
  is in the source files, so they are parameters of the model; every theorem holds for
  all of them.  The calls are taken to return.
\<close>

record 'p lib =
  kf_new :: "nat \<Rightarrow> nat \<Rightarrow> nat \<Rightarrow> kalman"
  kf_predict :: "kalman \<Rightarrow> real \<Rightarrow> kalman"
  kf_update :: "kalman \<Rightarrow> real list \<Rightarrow> kalman"
  pid_new :: "real \<Rightarrow> real \<Rightarrow> real \<Rightarrow> 'p"
  pid_calc :: "'p \<Rightarrow> real \<Rightarrow> real option \<Rightarrow> real \<Rightarrow> real \<times> 'p"

text \<open>
  The state of \<^verbatim>\<open>control_process\<close>: the attributes of \<^verbatim>\<open>self\<close>, the local variables
  that live across iterations of \<^verbatim>\<open>while True\<close>, and the outbound pipe.  A local
  variable that may be unbound is an option (\<open>None\<close>: unbound, or holding Python's
  \<^verbatim>\<open>None\<close> for the four altitude variables that the source initialises to it);
  \<^verbatim>\<open>imut\<close>, \<^verbatim>\<open>toft\<close> and \<^verbatim>\<open>oft\<close> are only printed, so only whether they are bound
  is kept.  \<open>ext_control_pipe\<close> is the queue of commands sent on
  \<^verbatim>\<open>ext_control_pipe_write\<close> and not yet received at \<^verbatim>\<open>ext_control_pipe_read\<close>.
\<close>

record 'p state =
  TAKEOFF_LIST :: "real list"
  TAKEOFF :: bool
  LANDING :: bool
  IMU_TIME :: real
  OF_TIME :: real
  TOF_Time :: real
  imu :: imu_sample
  tof_filter :: kalman
  KFXY :: kalman
  KFXY_z :: mat
  KFXY_u :: mat
  throttle_pd :: 'p
  roll_pd :: 'p
  pitch_pd :: 'p
  init_x :: real
  init_y :: real
  prev_altitude_sensor :: "real option"
  altitude_sensor :: "real option"
  altitude :: "real option"
  altitude_corrected :: "real option"
  value_available :: bool
  postition_hold :: bool
  init_altitude :: "real option"
  CMDS :: cmds
  prev_time :: real
  TAKEOFF_THRUST :: "int option"
  cancel_gravity_value :: "real option"
  dt :: "real option"
  velocity :: "real option"
  error_altitude :: "real option"
  next_throttle :: "real option"
  imut :: bool
  toft :: bool
  oft :: bool
  ext_control_pipe :: "cmds list"

text \<open>
  What one iteration finds on its inbound pipes (\<^verbatim>\<open>poll()\<close> then \<^verbatim>\<open>recv()\<close>), and
  the clock value read at its end (line 291).
\<close>

record inputs =
  mode_msg :: "bool option"
  imu_msg :: "(imu_sample \<times> real \<times> real) option"
  tof_msg :: "(real \<times> real) option"
  of_msg :: "(real \<times> real \<times> real) option"
  now :: real

datatype outcome = Completed | Continued | Raised exn

type_synonym 'p res = "(exn \<times> 'p state) + 'p state"

definition and_then :: "'p res \<Rightarrow> ('p state \<Rightarrow> 'p res) \<Rightarrow> 'p res" where
  "and_then r f = (case r of Inl e \<Rightarrow> Inl e | Inr s \<Rightarrow> f s)"

section \<open>The estimators' set-up\<close>

text \<open>
  \<^verbatim>\<open>tof_filter_init\<close> (lines 56-69) and \<^verbatim>\<open>xy_of_filter_init\<close> (lines 71-94): the
  fields the source assigns are overwritten on what the constructor returns.
\<close>

definition tof_filter_init :: "'p lib \<Rightarrow> kalman" where
  "tof_filter_init lib =
     (kf_new lib 2 2 1)\<lparr>
        kf_F := mat_of [[1, 0.01], [0, 1]],
        kf_P := diag_of [0.1, 0.1],
        kf_B := mat_of [[0], [0.01]],
        kf_H := diag_of [1, 1],
        kf_Q := diag_of [0.9, 0.4],
        kf_R := diag_of [0.02 ^ 2, 0.05 ^ 2]\<rparr>"

definition xy_of_filter_init :: "'p lib \<Rightarrow> kalman \<times> mat \<times> mat" where
  "xy_of_filter_init lib =
     (let k0 = kf_new lib 4 2 1;
          k = k0\<lparr>
            kf_x := mat_of [[0], [0], [0], [0]],
            kf_F := diag_of [1, 1, 1, 1],
            kf_P := diag_of [0.9, 0.9, 1, 1],
            kf_B := diag_of [1, 1, 1, 1],
            kf_H := mat_of [[0, 0, 1, 0], [0, 0, 0, 1]],
            kf_Q := mat_scale (0.1 ^ 2) (kf_Q k0),
            kf_R := mat_scale (0.01 ^ 2) (kf_R k0)\<rparr>
      in (k, mat_of [[0], [0]], mat_of [[0], [0], [0], [0]]))"

text \<open>
  The state on entry to \<^verbatim>\<open>while True\<close> (lines 12-54 and 115-139); \<open>t0\<close> is the
  clock value of line 139.
\<close>

definition init_state :: "'p lib \<Rightarrow> real \<Rightarrow> 'p state" where
  "init_state lib t0 =
     (case xy_of_filter_init lib of (kxy, z0, u0) \<Rightarrow>
     \<lparr> TAKEOFF_LIST = takeoff_profile 20,
       TAKEOFF = True,
       LANDING = False,
       IMU_TIME = 0,
       OF_TIME = 0,
       TOF_Time = 0,
       imu = \<lparr>accX = 0, accY = 0, accZ = 0, gyroX = 0, gyroY = 0, gyroZ = 0,
               imu_roll = 0, imu_pitch = 0, imu_yaw = 0\<rparr>,
       tof_filter = tof_filter_init lib,
       KFXY = kxy,
       KFXY_z = z0,
       KFXY_u = u0,
       throttle_pd = pid_new lib PZ_GAIN IZ_GAIN DZ_GAIN,
       roll_pd = pid_new lib PY_GAIN IY_GAIN DY_GAIN,
       pitch_pd = pid_new lib PX_GAIN IX_GAIN DX_GAIN,
       init_x = 0,
       init_y = 0,
       prev_altitude_sensor = None,
       altitude_sensor = None,
       altitude = None,
       altitude_corrected = None,
       value_available = False,
       postition_hold = False,
       init_altitude = Some 0,
       CMDS = \<lparr>throttle = 0, roll = 0, pitch = 0\<rparr>,
       prev_time = t0,
       TAKEOFF_THRUST = None,
       cancel_gravity_value = None,
       dt = None,
       velocity = None,
       error_altitude = None,
       next_throttle = None,
       imut = False,
       toft = False,
       oft = False,
       ext_control_pipe = [] \<rparr>)"

section \<open>One iteration of the loop, block by block\<close>

text \<open>Lines 142-144: the command dictionary is reset at the top of every iteration.\<close>

definition begin_tick :: "'p state \<Rightarrow> 'p state" where
  "begin_tick s = s\<lparr>CMDS := \<lparr>throttle = - 30, roll = 0, pitch = 0\<rparr>\<rparr>"

text \<open>Lines 149-153: the mode signal of the joystick loop.\<close>

definition read_mode :: "inputs \<Rightarrow> 'p state \<Rightarrow> 'p state" where
  "read_mode inp s =
     (case mode_msg inp of
        None \<Rightarrow> s
      | Some b \<Rightarrow>
          if \<not> b then s\<lparr>postition_hold := b, LANDING := True, init_altitude := None\<rparr>
          else s\<lparr>postition_hold := b\<rparr>)"

text \<open>
  Lines 156-162: the IMU sample; during takeoff the thrust constant is recomputed from
  the battery voltage, \<^verbatim>\<open>TAKEOFF_THRUST = int(1015-60*(battery_voltage))\<close>.
\<close>

definition thrust_of_voltage :: "real \<Rightarrow> int" where
  "thrust_of_voltage bv = py_int (1015 - 60 * bv)"

definition read_imu :: "inputs \<Rightarrow> 'p state \<Rightarrow> 'p state" where
  "read_imu inp s =
     (case imu_msg inp of
        None \<Rightarrow> s
      | Some (i, bv, t) \<Rightarrow>
          let s1 = s\<lparr>imu := i, IMU_TIME := t, imut := True\<rparr>
          in if TAKEOFF s1 then s1\<lparr>TAKEOFF_THRUST := Some (thrust_of_voltage bv)\<rparr> else s1)"

text \<open>
  Lines 165-173: the re-latch.  The test is \<^verbatim>\<open>if postition_hold and altitude_sensor\<close>;
  the block ends in \<^verbatim>\<open>continue\<close>.
\<close>

definition hold_reset_due :: "'p state \<Rightarrow> bool" where
  "hold_reset_due s = (postition_hold s \<and> truthy (altitude_sensor s))"

definition hold_reset :: "'p state \<Rightarrow> 'p state" where
  "hold_reset s =
     (case altitude_sensor s of
        None \<Rightarrow> s
      | Some a \<Rightarrow>
          s\<lparr>prev_altitude_sensor := Some a,
            init_altitude := Some a,
            postition_hold := False,
            tof_filter := (tof_filter s)\<lparr>kf_x := mat_of [[a], [0]]\<rparr>\<rparr>)"

text \<open>
  Lines 178-182: the entries of the vertical filter written before its predict step.
  \<^verbatim>\<open>B\<close> has shape (2,1), so \<^verbatim>\<open>B[0] = v\<close> writes \<^verbatim>\<open>B[0,0]\<close> and \<^verbatim>\<open>B[1] = v\<close>
  writes \<^verbatim>\<open>B[1,0]\<close>.
\<close>

definition tof_set_dt :: "kalman \<Rightarrow> real \<Rightarrow> kalman" where
  "tof_set_dt k d =
     k\<lparr>kf_F := mat_set (kf_F k) 0 1 (if_abs_lt3 d d),
       kf_B := mat_set (mat_set (kf_B k) 0 0 (if_abs_lt3 d (0.5 * d ^ 2))) 1 0 d\<rparr>"

text \<open>Lines 189-198: the takeoff ramp, and the end of takeoff.\<close>

definition takeoff_step :: "'p state \<Rightarrow> 'p res" where
  "takeoff_step s =
     (if TAKEOFF s then
        (case TAKEOFF_LIST s of
           f # rest \<Rightarrow>
             (case TAKEOFF_THRUST s of
                None \<Rightarrow> Inl (UnboundLocalError ''TAKEOFF_THRUST'', s)
              | Some T \<Rightarrow>
                  Inr (s\<lparr>CMDS := (CMDS s)\<lparr>throttle := f * real_of_int T\<rparr>,
                         value_available := True,
                         TAKEOFF_LIST := rest,
                         cancel_gravity_value := Some (f * real_of_int T)\<rparr>))
         | [] \<Rightarrow>
             Inr (s\<lparr>init_altitude := Some TAKEOFF_ALTITUDE,
                    velocity := Some 0,
                    TAKEOFF := False\<rparr>))
      else Inr s)"

text \<open>
  Lines 201-209: the throttle controller, its clamp, and the hover term added to the
  clamped value.  \<open>tilt\<close> is the divisor of line 207.
\<close>

definition tilt :: "imu_sample \<Rightarrow> real" where
  "tilt i = cos (imu_roll i * pi * 1 / 180) * cos (imu_pitch i * pi * 1 / 180)"

definition throttle_pid :: "'p lib \<Rightarrow> 'p state \<Rightarrow> 'p res" where
  "throttle_pid lib s =
     (if TAKEOFF s then Inr s else
      (case init_altitude s of None \<Rightarrow> Inl (TypeError, s) | Some ia \<Rightarrow>
      (case altitude s of None \<Rightarrow> Inl (TypeError, s) | Some al \<Rightarrow>
      (case dt s of None \<Rightarrow> Inl (UnboundLocalError ''dt'', s) | Some d \<Rightarrow>
      (case velocity s of None \<Rightarrow> Inl (UnboundLocalError ''velocity'', s) | Some v \<Rightarrow>
      (case pid_calc lib (throttle_pd s) (ia - al) (Some d) (- v) of (nt, pd) \<Rightarrow>
         (let s1 = s\<lparr>error_altitude := Some (ia - al),
                     throttle_pd := pd,
                     next_throttle := Some nt,
                     CMDS := (CMDS s)\<lparr>throttle := value_limit nt ABS_MAX_VALUE_THROTTLE\<rparr>\<rparr>
          in (case cancel_gravity_value s1 of
                None \<Rightarrow> Inl (UnboundLocalError ''cancel_gravity_value'', s1)
              | Some cg \<Rightarrow>
                  Inr (s1\<lparr>CMDS := (CMDS s1)\<lparr>throttle := throttle (CMDS s1) + cg / tilt (imu s1)\<rparr>,
                          value_available := True,
                          prev_altitude_sensor := altitude_corrected s1\<rparr>)))))))))"

text \<open>Lines 176-209: the vertical block, entered on \<^verbatim>\<open>if init_altitude\<close>.\<close>

definition vertical :: "'p lib \<Rightarrow> 'p state \<Rightarrow> 'p res" where
  "vertical lib s =
     (if \<not> truthy (init_altitude s) then Inr s else
      let d = prev_time s - TOF_Time s;
          k = kf_predict lib (tof_set_dt (tof_filter s) d) 0
      in and_then
           (takeoff_step
              (s\<lparr>dt := Some d,
                 tof_filter := k,
                 altitude := Some (kf_x k 0 0),
                 velocity := Some (kf_x k 1 0)\<rparr>))
           (throttle_pid lib))"

text \<open>Lines 212-214: landing overrides the throttle.\<close>

definition landing :: "'p state \<Rightarrow> 'p res" where
  "landing s =
     (if \<not> TAKEOFF s \<and> LANDING s then
        (case cancel_gravity_value s of
           None \<Rightarrow> Inl (UnboundLocalError ''cancel_gravity_value'', s)
         | Some cg \<Rightarrow> Inr (s\<lparr>CMDS := (CMDS s)\<lparr>throttle := cg - 50\<rparr>\<rparr>))
      else Inr s)"

text \<open>
  Lines 232-234: the corrected range reading and the measurement vector handed to the
  vertical filter's update; \<open>p\<close> is \<^verbatim>\<open>prev_altitude_sensor\<close> and \<open>d\<close> is \<^verbatim>\<open>dt\<close>.
\<close>

definition corrected_altitude :: "real \<Rightarrow> imu_sample \<Rightarrow> real" where
  "corrected_altitude a i = a * cos (imu_roll i * pi * 1 / 180) * cos (imu_pitch i * pi * 1 / 180)"

definition mount_offset :: "imu_sample \<Rightarrow> real" where
  "mount_offset i =
     0.05517 * sin (0.81 - imu_roll i * pi * 1 / 180) * cos (imu_pitch i * pi * 1 / 180)"

definition tof_measurement :: "real \<Rightarrow> imu_sample \<Rightarrow> real \<Rightarrow> real \<Rightarrow> real list" where
  "tof_measurement a i p d =
     [truncate2 (corrected_altitude a i - mount_offset i),
      truncate2 (((corrected_altitude a i - mount_offset i) - p) / d)]"

text \<open>
  A numpy float divided by a zero \<^verbatim>\<open>dt\<close> is \<^verbatim>\<open>nan\<close> or \<^verbatim>\<open>inf\<close>, and
  \<^verbatim>\<open>int()\<close> inside \<^verbatim>\<open>truncate\<close> raises on either.
\<close>

definition div_by_zero_exn :: "real \<Rightarrow> exn" where
  "div_by_zero_exn numerator = (if numerator = 0 then ValueError else OverflowError)"

text \<open>Lines 217-234: the range sample.\<close>

definition tof_read :: "'p lib \<Rightarrow> inputs \<Rightarrow> 'p state \<Rightarrow> 'p res" where
  "tof_read lib inp s =
     (case tof_msg inp of
        None \<Rightarrow> Inr s
      | Some (a, t) \<Rightarrow>
          if \<not> truthy (init_altitude s) then Inr (s\<lparr>altitude_sensor := Some a, TOF_Time := t\<rparr>)
          else
            let s1 = s\<lparr>altitude_sensor := Some a, TOF_Time := t, toft := True,
                       altitude_corrected := Some (corrected_altitude a (imu s))\<rparr>
            in (case prev_altitude_sensor s1 of None \<Rightarrow> Inl (TypeError, s1) | Some p \<Rightarrow>
               (case dt s1 of None \<Rightarrow> Inl (UnboundLocalError ''dt'', s1) | Some d \<Rightarrow>
                 (if d = 0
                  then Inl (div_by_zero_exn ((corrected_altitude a (imu s1) - mount_offset (imu s1)) - p), s1)
                  else Inr (s1\<lparr>tof_filter :=
                              kf_update lib (tof_filter s1) (tof_measurement a (imu s1) p d)\<rparr>)))))"

text \<open>
  Lines 240-247: the entries of the horizontal filter written on every iteration outside
  takeoff; \<open>v\<close> is \<^verbatim>\<open>velocity\<close>.
\<close>

definition xy_set_matrices :: "kalman \<Rightarrow> real \<Rightarrow> real \<Rightarrow> real \<Rightarrow> kalman" where
  "xy_set_matrices k v dt_OF dt_IMU =
     k\<lparr>kf_R := mat_set (mat_set (kf_R k) 0 0 (0.01 + v / 100)) 1 1 (0.01 + v / 100),
       kf_F := mat_set (mat_set (kf_F k) 0 2 (if_abs_lt3 dt_OF dt_OF)) 1 3 (if_abs_lt3 dt_OF dt_OF),
       kf_B := mat_set (mat_set (kf_B k) 2 2 (if_abs_lt3 dt_IMU dt_IMU)) 3 3 (if_abs_lt3 dt_IMU dt_IMU)\<rparr>"

text \<open>
  Line 254 stores the flow message in \<^verbatim>\<open>KFXY_z[0,0], KFXY_z[1,0]\<close> in the order
  received; line 257 hands \<^verbatim>\<open>KFXY_z*(-altitude)\<close> to the update.
\<close>

definition store_flow :: "mat \<Rightarrow> real \<Rightarrow> real \<Rightarrow> mat" where
  "store_flow z fx fy = mat_set (mat_set z 0 0 fx) 1 0 fy"

definition xy_measurement :: "mat \<Rightarrow> real \<Rightarrow> real list" where
  "xy_measurement z al = [z 0 0 * (- al), z 1 0 * (- al)]"

text \<open>Lines 240-259: the horizontal filter.\<close>

definition xy_filter :: "'p lib \<Rightarrow> inputs \<Rightarrow> 'p state \<Rightarrow> 'p res" where
  "xy_filter lib inp s =
     (case velocity s of None \<Rightarrow> Inl (UnboundLocalError ''velocity'', s) | Some v \<Rightarrow>
        (let k1 = xy_set_matrices (KFXY s) v (prev_time s - OF_TIME s) (prev_time s - IMU_TIME s);
             u = mat_set
                   (mat_set (KFXY_u s) 2 0 (truncate2 (9.81 * accX (imu s) * cos (imu_pitch (imu s)))))
                   3 0 (truncate2 (9.81 * accY (imu s) * cos (imu_roll (imu s))));
             s1 = s\<lparr>KFXY := k1, KFXY_u := u\<rparr>
         in (case of_msg inp of
               None \<Rightarrow> Inr (s1\<lparr>KFXY := kf_predict lib k1 0\<rparr>)
             | Some (fx, fy, t) \<Rightarrow>
                 (let s2 = s1\<lparr>KFXY_z := store_flow (KFXY_z s1) fx fy, OF_TIME := t, oft := True\<rparr>
                  in (case altitude s2 of
                        None \<Rightarrow> Inl (TypeError, s2)
                      | Some al \<Rightarrow>
                          Inr (s2\<lparr>KFXY :=
                                 kf_predict lib
                                   (kf_update lib k1 (xy_measurement (KFXY_z s2) al)) 0\<rparr>))))))"

text \<open>Lines 262-270: the roll and pitch controllers and their clamps.\<close>

definition xy_control :: "'p lib \<Rightarrow> 'p state \<Rightarrow> 'p state" where
  "xy_control lib s =
     (let error_roll = truncate2 (init_y s - kf_x (KFXY s) 1 0) / 8;
          error_pitch = truncate2 (init_x s - kf_x (KFXY s) 0 0) / 9;
          velocity_roll = truncate2 (kf_x (KFXY s) 3 0);
          velocity_pitch = truncate2 (kf_x (KFXY s) 2 0)
      in (case pid_calc lib (roll_pd s) error_roll None (- velocity_roll) of (next_roll, rp) \<Rightarrow>
         (case pid_calc lib (pitch_pd s) error_pitch None (- velocity_pitch) of (next_pitch, pp) \<Rightarrow>
            s\<lparr>roll_pd := rp,
              pitch_pd := pp,
              CMDS := (CMDS s)\<lparr>roll := axis_limit next_roll ABS_MAX_VALUE_ROLL,
                                 pitch := axis_limit next_pitch ABS_MAX_VALUE_PITCH\<rparr>,
              value_available := True\<rparr>)))"

text \<open>
  Lines 272-285: the diagnostic prints change nothing, but they read variables that may
  be unbound, format \<^verbatim>\<open>altitude\<close> as a float, and truncate a quotient by \<^verbatim>\<open>dt\<close>.
\<close>

definition xy_print :: "'p state \<Rightarrow> 'p res" where
  "xy_print s =
     (case error_altitude s of None \<Rightarrow> Inl (UnboundLocalError ''error_altitude'', s) | Some ea \<Rightarrow>
     (case next_throttle s of None \<Rightarrow> Inl (UnboundLocalError ''next_throttle'', s) | Some nt \<Rightarrow>
     (case altitude s of None \<Rightarrow> Inl (TypeError, s) | Some al \<Rightarrow>
     (case dt s of None \<Rightarrow> Inl (UnboundLocalError ''dt'', s) | Some d \<Rightarrow>
       (if d = 0 then Inl (div_by_zero_exn (imu_roll (imu s) * pi * 1 / 180 * al), s)
        else if \<not> oft s then Inl (UnboundLocalError ''oft'', s)
        else if \<not> imut s then Inl (UnboundLocalError ''imut'', s)
        else if \<not> toft s then Inl (UnboundLocalError ''toft'', s)
        else Inr s)))))"

text \<open>Lines 238-285: the horizontal block, entered on \<^verbatim>\<open>if (not self.TAKEOFF)\<close>.\<close>

definition xy :: "'p lib \<Rightarrow> inputs \<Rightarrow> 'p state \<Rightarrow> 'p res" where
  "xy lib inp s =
     (if TAKEOFF s then Inr s
      else and_then (xy_filter lib inp s) (\<lambda>s1. xy_print (xy_control lib s1)))"

text \<open>
  Lines 287-289: the command is sent when one is available and
  \<^verbatim>\<open>ext_control_pipe_read.poll()\<close> is false, that is, when nothing sent earlier is
  still unread.
\<close>

definition publish :: "'p state \<Rightarrow> 'p state" where
  "publish s =
     (if value_available s \<and> ext_control_pipe s = []
      then s\<lparr>ext_control_pipe := ext_control_pipe s @ [CMDS s], value_available := False\<rparr>
      else s)"

text \<open>
  The body of \<^verbatim>\<open>while True\<close> (lines 141-294).  An exception leaves the body at the
  point where it is raised, with every assignment made so far in place; like
  \<^verbatim>\<open>continue\<close>, it skips the send, the sleep and the assignment to \<^verbatim>\<open>prev_time\<close>.
  \<open>prelude\<close> is lines 142-162, \<open>body\<close> lines 176-285.
\<close>

definition prelude :: "inputs \<Rightarrow> 'p state \<Rightarrow> 'p state" where
  "prelude inp s = read_imu inp (read_mode inp (begin_tick s))"

definition body :: "'p lib \<Rightarrow> inputs \<Rightarrow> 'p state \<Rightarrow> 'p res" where
  "body lib inp s =
     and_then (and_then (and_then (vertical lib s) landing) (tof_read lib inp)) (xy lib inp)"

definition tick :: "'p lib \<Rightarrow> inputs \<Rightarrow> 'p state \<Rightarrow> outcome \<times> 'p state" where
  "tick lib inp s =
     (if hold_reset_due (prelude inp s) then (Continued, hold_reset (prelude inp s))
      else
        (case body lib inp (prelude inp s) of
           Inl (e, s') \<Rightarrow> (Raised e, s')
         | Inr s' \<Rightarrow> (Completed, (publish s')\<lparr>prev_time := now inp\<rparr>)))"

text \<open>The states after each of a sequence of iterations.\<close>

fun run :: "'p lib \<Rightarrow> inputs list \<Rightarrow> 'p state \<Rightarrow> 'p state list" where
  "run lib [] s = []"
| "run lib (i # is) s = snd (tick lib i s) # run lib is (snd (tick lib i s))"

text \<open>
  The states the loop can be in: it starts in \<open>init_state\<close>, runs iterations on any
  inputs, and between iterations the reader of the outbound pipe may receive the oldest
  pending command.
\<close>

inductive_set reachable :: "'p lib \<Rightarrow> 'p state set" for lib :: "'p lib" where
  start: "init_state lib t0 \<in> reachable lib"
| iterate: "s \<in> reachable lib \<Longrightarrow> snd (tick lib inp s) \<in> reachable lib"
| consume: "s \<in> reachable lib \<Longrightarrow> ext_control_pipe s = c # cs \<Longrightarrow>
            s\<lparr>ext_control_pipe := cs\<rparr> \<in> reachable lib"

section \<open>\<^verbatim>\<open>truncate\<close> on binary64 floats\<close>

text \<open>
  The finite binary64 values are the rationals \<open>m * 2 ^ e\<close> with \<open>\<bar>m\<bar> < 2 ^ 53\<close> and
  \<open>- 1074 \<le> e\<close>, below \<open>2 ^ 1024\<close> in magnitude.  \<open>f64_round\<close> is IEEE 754 rounding
  to nearest, ties to even, of an exact result: \<open>ilog2\<close> is the binary exponent, held at
  \<open>- 1022\<close> in the subnormal range, and \<open>None\<close> stands for an overflow to infinity.
  A float product, a quotient of two Python ints and a float literal are each the
  rounding of the exact value.
\<close>

definition pow2 :: "int \<Rightarrow> rat" where
  "pow2 k = (if 0 \<le> k then 2 ^ nat k else 1 / 2 ^ nat (- k))"

definition ilog2 :: "rat \<Rightarrow> int" where
  "ilog2 q = (case quotient_of q of (a, b) \<Rightarrow>
     let k = bitlen a - bitlen b in if pow2 k \<le> q then k else k - 1)"

definition round_half_even :: "rat \<Rightarrow> int" where
  "round_half_even q =
     (let f = \<lfloor>q\<rfloor>; r = q - of_int f
      in if r < 1 / 2 then f else if 1 / 2 < r then f + 1 else if even f then f else f + 1)"

definition f64_round :: "rat \<Rightarrow> rat option" where
  "f64_round q =
     (if q = 0 then Some 0 else
      let e = max (ilog2 \<bar>q\<bar>) (- 1022);
          u = pow2 (e - 52);
          r = of_int (round_half_even (q / u)) * u
      in if 1024 \<le> ilog2 \<bar>r\<bar> then None else Some r)"

text \<open>The float a decimal literal denotes (0 where the literal overflows).\<close>

definition f64_lit :: "rat \<Rightarrow> rat" where
  "f64_lit q = (case f64_round q of Some r \<Rightarrow> r | None \<Rightarrow> 0)"

definition py_int_rat :: "rat \<Rightarrow> int" where
  "py_int_rat v = (if 0 \<le> v then \<lfloor>v\<rfloor> else \<lceil>v\<rceil>)"

text \<open>
  \<^verbatim>\<open>(int(data*(10**2)))/(10**2)\<close> on a finite float \<^verbatim>\<open>data\<close>: the product is
  rounded, \<^verbatim>\<open>int\<close> raises \<^verbatim>\<open>OverflowError\<close> on an infinite product, and the
  quotient of the two ints is rounded.
\<close>

definition truncate2_f64 :: "rat \<Rightarrow> exn + rat" where
  "truncate2_f64 a =
     (case f64_round (a * 100) of
        None \<Rightarrow> Inl OverflowError
      | Some m \<Rightarrow>
          (case f64_round (of_int (py_int_rat m) / 100) of
             None \<Rightarrow> Inl OverflowError
           | Some r \<Rightarrow> Inr r))"

section \<open>Reading results, and a concrete instance of the external code\<close>

text \<open>The state an iteration's block ends in, whether it raised or not.\<close>

definition state_of :: "'p res \<Rightarrow> 'p state" where
  "state_of r = (case r of Inl (e, s) \<Rightarrow> s | Inr s \<Rightarrow> s)"

text \<open>
  The theorems below hold for every instance of the external code.  Where the loop is
  run on concrete inputs, the instance is this one: a textbook linear Kalman filter (two
  measurement channels, arrays of at most four rows) and the controller of the spec.
\<close>

definition mat_mul :: "nat \<Rightarrow> mat \<Rightarrow> mat \<Rightarrow> mat" where
  "mat_mul n A B = (\<lambda>i j. \<Sum>k<n. A i k * B k j)"

definition mat_T :: "mat \<Rightarrow> mat" where
  "mat_T A = (\<lambda>i j. A j i)"

definition mat_add :: "mat \<Rightarrow> mat \<Rightarrow> mat" where
  "mat_add A B = (\<lambda>i j. A i j + B i j)"

definition mat_sub :: "mat \<Rightarrow> mat \<Rightarrow> mat" where
  "mat_sub A B = (\<lambda>i j. A i j - B i j)"

definition inv2 :: "mat \<Rightarrow> mat" where
  "inv2 S = mat_scale (1 / (S 0 0 * S 1 1 - S 0 1 * S 1 0))
              (mat_of [[S 1 1, - S 0 1], [- S 1 0, S 0 0]])"

definition eye :: "nat \<Rightarrow> mat" where
  "eye n = diag_of (replicate n 1)"

definition textbook_new :: "nat \<Rightarrow> nat \<Rightarrow> nat \<Rightarrow> kalman" where
  "textbook_new dim_x dim_z dim_u =
     \<lparr>kf_x = mat_of [], kf_P = eye dim_x, kf_F = eye dim_x, kf_B = mat_of [],
      kf_H = mat_of [], kf_Q = eye dim_x, kf_R = eye dim_z\<rparr>"

definition textbook_predict :: "kalman \<Rightarrow> real \<Rightarrow> kalman" where
  "textbook_predict k u =
     k\<lparr>kf_x := mat_add (mat_mul 4 (kf_F k) (kf_x k)) (mat_scale u (kf_B k)),
       kf_P := mat_add (mat_mul 4 (mat_mul 4 (kf_F k) (kf_P k)) (mat_T (kf_F k))) (kf_Q k)\<rparr>"

definition textbook_update :: "kalman \<Rightarrow> real list \<Rightarrow> kalman" where
  "textbook_update k z =
     (let y = mat_sub (mat_of (map (\<lambda>v. [v]) z)) (mat_mul 4 (kf_H k) (kf_x k));
          PHT = mat_mul 4 (kf_P k) (mat_T (kf_H k));
          K = mat_mul 2 PHT (inv2 (mat_add (mat_mul 4 (kf_H k) PHT) (kf_R k)));
          I_KH = mat_sub (eye 4) (mat_mul 2 K (kf_H k))
      in k\<lparr>kf_x := mat_add (kf_x k) (mat_mul 2 K y),
           kf_P := mat_add (mat_mul 4 (mat_mul 4 I_KH (kf_P k)) (mat_T I_KH))
                     (mat_mul 2 (mat_mul 2 K (kf_R k)) (mat_T K))\<rparr>)"

text \<open>
  Modelled from the spec: the \<^verbatim>\<open>PID\<close> class of module \<^verbatim>\<open>pid\<close>, which is not among
  the source files.  Spec 4.4: \<^verbatim>\<open>output = Kp*error + Ki*(integral of error dt) +
  Kd*(-velocityFeedback)\<close>, the last factor being the value the loop passes as
  \<^verbatim>\<open>velocity\<close>.  A call without a time leaves the integral as it is.
\<close>

record pid =
  Kp :: real
  Ki :: real
  Kd :: real
  integral :: real

definition spec_pid_new :: "real \<Rightarrow> real \<Rightarrow> real \<Rightarrow> pid" where
  "spec_pid_new p i d = \<lparr>Kp = p, Ki = i, Kd = d, integral = 0\<rparr>"

definition spec_pid_calc :: "pid \<Rightarrow> real \<Rightarrow> real option \<Rightarrow> real \<Rightarrow> real \<times> pid" where
  "spec_pid_calc c err tm vel =
     (let acc = (case tm of None \<Rightarrow> integral c | Some d \<Rightarrow> integral c + err * d)
      in (Kp c * err + Ki c * acc + Kd c * vel, c\<lparr>integral := acc\<rparr>))"

definition example_lib :: "pid lib" where
  "example_lib =
     \<lparr>kf_new = textbook_new, kf_predict = textbook_predict, kf_update = textbook_update,
      pid_new = spec_pid_new, pid_calc = spec_pid_calc\<rparr>"

text \<open>
  The shape of a command once the vertical, landing and horizontal blocks have run: roll
  and pitch within their limits, and a throttle that is the default \<open>- 30\<close>, the ramp
  value, the hover value less 50, or within the throttle limit of the tilt-compensated
  hover value.
\<close>

definition cmd_shape :: "'p state \<Rightarrow> bool" where
  "cmd_shape s =
     (\<bar>roll (CMDS s)\<bar> \<le> ABS_MAX_VALUE_ROLL \<and> \<bar>pitch (CMDS s)\<bar> \<le> ABS_MAX_VALUE_PITCH \<and>
      (throttle (CMDS s) = - 30 \<or>
       (\<exists>cg. cancel_gravity_value s = Some cg \<and>
          (throttle (CMDS s) = cg \<or> throttle (CMDS s) = cg - 50 \<or>
           \<bar>throttle (CMDS s) - cg / tilt (imu s)\<bar> \<le> ABS_MAX_VALUE_THROTTLE))))"

text \<open>Inputs of an iteration on which no pipe has anything to read.\<close>

definition quiet :: "real \<Rightarrow> inputs" where
  "quiet t = \<lparr>mode_msg = None, imu_msg = None, tof_msg = None, of_msg = None, now = t\<rparr>"

definition level :: imu_sample where
  "level = \<lparr>accX = 0, accY = 0, accZ = 0, gyroX = 0, gyroY = 0, gyroZ = 0,
            imu_roll = 0, imu_pitch = 0, imu_yaw = 0\<rparr>"

text \<open>
  A start of the loop: an IMU sample at 11.5 V and a range sample of 0.11 m arrive, the
  joystick loop enables position hold, and the ramp begins.  \<open>ramp_state\<close> is the state
  after these three iterations, with the command of the third still unread;
  \<open>ramp_state\<close> is that state once the reader has received the command.
\<close>

definition start_inputs :: "inputs list" where
  "start_inputs =
     [(quiet 0.01)\<lparr>imu_msg := Some (level, 11.5, 0), tof_msg := Some (0.11, 0)\<rparr>,
      (quiet 0.02)\<lparr>mode_msg := Some True\<rparr>,
      quiet 0.03]"

definition pending_state :: "pid state" where
  "pending_state = last (run example_lib start_inputs (init_state example_lib 0))"

definition ramp_state :: "pid state" where
  "ramp_state = pending_state\<lparr>ext_control_pipe := []\<rparr>"

text \<open>
  A state in HOLD: the ramp is over, every variable is bound, the last range reading was
  1 m, the vertical estimate stands at 1 m and the horizontal estimate at (0.5, 0.3).
\<close>

definition hold_state :: "pid state" where
  "hold_state =
     ramp_state\<lparr>
       TAKEOFF_LIST := [],
       TAKEOFF := False,
       KFXY := (KFXY ramp_state)\<lparr>kf_x := mat_of [[0.5], [0.3], [0], [0]]\<rparr>,
       prev_altitude_sensor := Some 1,
       altitude_sensor := Some 1,
       altitude := Some 1,
       altitude_corrected := Some 1,
       init_altitude := Some TAKEOFF_ALTITUDE,
       cancel_gravity_value := Some (takeoff_fraction 19 * 325),
       dt := Some 0.01,
       velocity := Some 0,
       error_altitude := Some 0,
       next_throttle := Some 0,
       toft := True,
       oft := True\<rparr>"

text \<open>
  Two states that differ at most in \<^verbatim>\<open>altitude_sensor\<close>; two states that differ at most
  in \<^verbatim>\<open>init_altitude\<close>, which is not true (\<^verbatim>\<open>None\<close> or 0) in either; and two block
  results that raise the same exception or both return, in related states.
\<close>

definition same_but_altitude_sensor :: "'p state \<Rightarrow> 'p state \<Rightarrow> bool" where
  "same_but_altitude_sensor s1 s2 = (s1\<lparr>altitude_sensor := None\<rparr> = s2\<lparr>altitude_sensor := None\<rparr>)"

definition same_res :: "('p state \<Rightarrow> 'p state \<Rightarrow> bool) \<Rightarrow> 'p res \<Rightarrow> 'p res \<Rightarrow> bool" where
  "same_res R r1 r2 =
     (case r1 of
        Inl (e1, s1) \<Rightarrow> (case r2 of Inl (e2, s2) \<Rightarrow> e1 = e2 \<and> R s1 s2 | Inr s2 \<Rightarrow> False)
      | Inr s1 \<Rightarrow> (case r2 of Inl (e2, s2) \<Rightarrow> False | Inr s2 \<Rightarrow> R s1 s2))"


definition same_but_falsy_reference :: "'p state \<Rightarrow> 'p state \<Rightarrow> bool" where
  "same_but_falsy_reference s1 s2 =
     (s1\<lparr>init_altitude := None\<rparr> = s2\<lparr>init_altitude := None\<rparr> \<and>
      \<not> truthy (init_altitude s1) \<and> \<not> truthy (init_altitude s2))"

text \<open>
  Two range samples of 1 m, one iteration apart, arriving in \<open>hold_state\<close>.
\<close>

definition first_sample :: inputs where
  "first_sample = (quiet 0.04)\<lparr>tof_msg := Some (1, 0.035)\<rparr>"

definition second_sample :: inputs where
  "second_sample = (quiet 0.05)\<lparr>tof_msg := Some (1, 0.045)\<rparr>"

definition after_first_sample :: "pid state" where
  "after_first_sample = snd (tick example_lib first_sample hold_state)"






section \<open>Truncation and saturation: properties\<close>

lemma py_int_of_int: "py_int (real_of_int k) = k"
  by (simp add: py_int_def)

lemma truncate2_eq: "truncate2 a = real_of_int (py_int (a * 100)) / 100"
  by (simp add: truncate2_def truncate_dp_def)

lemma value_limit_bound: "0 \<le> limit \<Longrightarrow> \<bar>value_limit v limit\<bar> \<le> limit"
  by (simp add: value_limit_def)

lemma axis_limit_bound: "0 \<le> limit \<Longrightarrow> \<bar>axis_limit v limit\<bar> \<le> limit"
  by (simp add: axis_limit_def)

text \<open>
  C9.  The claim: \<^verbatim>\<open>truncate2\<close> is idempotent for every input and truncates toward
  zero, with \<^verbatim>\<open>truncate2(-1.239) == -1.23\<close>; the docstring of \<^verbatim>\<open>truncate\<close> says
  \<^verbatim>\<open>Truncate the value down to 2 dp\<close>.  On floats \<^verbatim>\<open>int(data*100)/100\<close> does
  neither.  \<^verbatim>\<open>truncate(0.295)\<close> is the float \<^verbatim>\<open>0.29\<close> and \<^verbatim>\<open>truncate(0.29)\<close> is
  \<^verbatim>\<open>0.28\<close>, so truncating twice differs from truncating once.  And
  \<^verbatim>\<open>truncate(0.09999999999999999)\<close> is \<^verbatim>\<open>0.1\<close>, above its input: the product
  rounds up to 10.0 before \<^verbatim>\<open>int\<close> sees it.  The example of the claim holds, and
  \<^verbatim>\<open>-1.23\<close> is a fixed point.
\<close>

theorem truncate_float_failures:
  "truncate2_f64 (f64_lit (295 / 1000)) = Inr (f64_lit (29 / 100)) \<and>
   truncate2_f64 (f64_lit (29 / 100)) = Inr (f64_lit (28 / 100)) \<and>
   f64_lit (28 / 100) \<noteq> f64_lit (29 / 100) \<and>
   truncate2_f64 (f64_lit (9999999999999999 / 100000000000000000)) = Inr (f64_lit (1 / 10)) \<and>
   \<bar>f64_lit (9999999999999999 / 100000000000000000)\<bar> < \<bar>f64_lit (1 / 10)\<bar> \<and>
   truncate2_f64 (f64_lit (- 1239 / 1000)) = Inr (f64_lit (- 123 / 100)) \<and>
   truncate2_f64 (f64_lit (- 123 / 100)) = Inr (f64_lit (- 123 / 100))"
proof -
  have twice: "truncate2_f64 (f64_lit (295 / 1000)) = Inr (f64_lit (29 / 100))"
    "truncate2_f64 (f64_lit (29 / 100)) = Inr (f64_lit (28 / 100))"
    "f64_lit (28 / 100) \<noteq> f64_lit (29 / 100)"
    by code_simp+
  have up: "truncate2_f64 (f64_lit (9999999999999999 / 100000000000000000)) = Inr (f64_lit (1 / 10))"
    "\<bar>f64_lit (9999999999999999 / 100000000000000000)\<bar> < \<bar>f64_lit (1 / 10)\<bar>"
    by code_simp+
  have example: "truncate2_f64 (f64_lit (- 1239 / 1000)) = Inr (f64_lit (- 123 / 100))"
    "truncate2_f64 (f64_lit (- 123 / 100)) = Inr (f64_lit (- 123 / 100))"
    by code_simp+
  from twice up example show ?thesis
    by blast
qed

section \<open>The entries written before the predict steps\<close>

lemma if_abs_lt3_eq: "if_abs_lt3 d v = (if d < 3 then v else 0)"
  by (simp add: if_abs_lt3_def abs_lt3_def)

lemma mat_set_same: "mat_set M i j v i j = v"
  by (simp add: mat_set_def)

lemma mat_set_other: "i \<noteq> i' \<or> j \<noteq> j' \<Longrightarrow> mat_set M i j v i' j' = M i' j'"
  by (auto simp add: mat_set_def)

lemma tof_set_dt_entries:
  "kf_F (tof_set_dt k d) 0 (Suc 0) = (if d < 3 then d else 0)"
  "kf_B (tof_set_dt k d) 0 0 = (if d < 3 then 0.5 * d ^ 2 else 0)"
  "kf_B (tof_set_dt k d) (Suc 0) 0 = d"
  by (simp_all add: tof_set_dt_def if_abs_lt3_eq mat_set_def)

lemma xy_set_matrices_entries:
  "kf_R (xy_set_matrices k v d1 d2) 0 0 = 0.01 + v / 100"
  "kf_R (xy_set_matrices k v d1 d2) (Suc 0) (Suc 0) = 0.01 + v / 100"
  "kf_F (xy_set_matrices k v d1 d2) 0 2 = (if d1 < 3 then d1 else 0)"
  "kf_F (xy_set_matrices k v d1 d2) (Suc 0) 3 = (if d1 < 3 then d1 else 0)"
  "kf_B (xy_set_matrices k v d1 d2) 2 2 = (if d2 < 3 then d2 else 0)"
  "kf_B (xy_set_matrices k v d1 d2) 3 3 = (if d2 < 3 then d2 else 0)"
  by (simp_all add: xy_set_matrices_def if_abs_lt3_eq mat_set_def)

lemma vertical_filter:
  "truthy (init_altitude s) \<Longrightarrow>
   tof_filter (state_of (vertical lib s)) =
     kf_predict lib (tof_set_dt (tof_filter s) (prev_time s - TOF_Time s)) 0"
  by (auto simp add: vertical_def state_of_def and_then_def takeoff_step_def throttle_pid_def Let_def
      split: list.splits option.splits prod.splits sum.splits)

text \<open>
  C2.  The claim: the coupling and control-matrix terms are zeroed exactly when
  \<open>\<bar>dt\<bar> \<ge> 3\<close>, so also at \<open>dt = - 3.001\<close>.  The source tests \<^verbatim>\<open>abs(dt<3)\<close>, the
  absolute value of the comparison, so every \<open>dt\<close> below 3 is applied: at
  \<open>dt = - 3.001\<close> the vertical filter is predicted with \<open>F[0,1] = - 3.001\<close> and
  \<open>B[0] = 0.5 * 3.001\<^sup>2\<close>, and the horizontal filter gets \<open>- 3.001\<close> in the four
  entries it writes.  The two positive values of the claim behave as it says:
  \<open>2.999\<close> is applied, \<open>3.001\<close> is zeroed.
\<close>

theorem dt_guard_ignores_sign:
  "tof_filter (state_of (vertical lib (s\<lparr>init_altitude := Some 1, prev_time := t, TOF_Time := t + 3.001\<rparr>))) =
     kf_predict lib (tof_set_dt (tof_filter s) (- 3.001)) 0 \<and>
   kf_F (tof_set_dt k (- 3.001)) 0 1 = - 3.001 \<and>
   kf_B (tof_set_dt k (- 3.001)) 0 0 = 0.5 * (- 3.001) ^ 2 \<and>
   kf_F (xy_set_matrices k v (- 3.001) d2) 0 2 = - 3.001 \<and>
   kf_F (xy_set_matrices k v (- 3.001) d2) 1 3 = - 3.001 \<and>
   kf_B (xy_set_matrices k v d1 (- 3.001)) 2 2 = - 3.001 \<and>
   kf_B (xy_set_matrices k v d1 (- 3.001)) 3 3 = - 3.001 \<and>
   kf_F (tof_set_dt k 2.999) 0 1 = 2.999 \<and>
   kf_F (tof_set_dt k 3.001) 0 1 = 0"
proof -
  have "tof_filter (state_of (vertical lib (s\<lparr>init_altitude := Some 1, prev_time := t, TOF_Time := t + 3.001\<rparr>))) =
     kf_predict lib (tof_set_dt (tof_filter s) (- 3.001)) 0"
    by (subst vertical_filter) (simp_all add: truthy_def)
  then show ?thesis
    by (simp add: tof_set_dt_entries xy_set_matrices_entries)
qed

section \<open>The published command\<close>

lemma cmd_shape_start: "cmd_shape (prelude inp s)"
  by (simp add: cmd_shape_def prelude_def read_imu_def read_mode_def begin_tick_def Let_def
      ABS_MAX_VALUE_ROLL_def ABS_MAX_VALUE_PITCH_def split: option.splits prod.splits)

lemma takeoff_step_shape:
  "takeoff_step s = Inr s' \<Longrightarrow> cmd_shape s \<Longrightarrow> cmd_shape s'"
  by (auto simp add: takeoff_step_def cmd_shape_def split: if_splits list.splits option.splits)

lemma throttle_pid_shape:
  "throttle_pid lib s = Inr s' \<Longrightarrow> cmd_shape s \<Longrightarrow> cmd_shape s'"
  using value_limit_bound [of ABS_MAX_VALUE_THROTTLE]
  by (auto simp add: throttle_pid_def cmd_shape_def Let_def ABS_MAX_VALUE_THROTTLE_def
      split: if_splits option.splits prod.splits)

lemma vertical_shape:
  "vertical lib s = Inr s' \<Longrightarrow> cmd_shape s \<Longrightarrow> cmd_shape s'"
proof -
  assume r: "vertical lib s = Inr s'" and c: "cmd_shape s"
  show ?thesis
  proof (cases "truthy (init_altitude s)")
    case False
    with r c show ?thesis by (simp add: vertical_def)
  next
    case True
    let ?s1 = "s\<lparr>dt := Some (prev_time s - TOF_Time s),
                 tof_filter := kf_predict lib (tof_set_dt (tof_filter s) (prev_time s - TOF_Time s)) 0,
                 altitude := Some (kf_x (kf_predict lib (tof_set_dt (tof_filter s) (prev_time s - TOF_Time s)) 0) 0 0),
                 velocity := Some (kf_x (kf_predict lib (tof_set_dt (tof_filter s) (prev_time s - TOF_Time s)) 0) 1 0)\<rparr>"
    from r True obtain s2 where a: "takeoff_step ?s1 = Inr s2" and b: "throttle_pid lib s2 = Inr s'"
      by (auto simp add: vertical_def Let_def and_then_def split: sum.splits)
    have "cmd_shape ?s1" using c by (simp add: cmd_shape_def)
    then show ?thesis using a b takeoff_step_shape throttle_pid_shape by blast
  qed
qed

lemma landing_shape:
  "landing s = Inr s' \<Longrightarrow> cmd_shape s \<Longrightarrow> cmd_shape s'"
  by (auto simp add: landing_def cmd_shape_def split: if_splits option.splits)

lemma tof_read_shape:
  "tof_read lib inp s = Inr s' \<Longrightarrow> cmd_shape s \<Longrightarrow> cmd_shape s'"
  by (auto simp add: tof_read_def cmd_shape_def Let_def split: if_splits option.splits prod.splits)

lemma xy_filter_shape:
  "xy_filter lib inp s = Inr s' \<Longrightarrow> cmd_shape s \<Longrightarrow> cmd_shape s'"
  by (auto simp add: xy_filter_def cmd_shape_def Let_def split: if_splits option.splits prod.splits)

lemma xy_control_shape:
  "cmd_shape s \<Longrightarrow> cmd_shape (xy_control lib s)"
  using axis_limit_bound [of ABS_MAX_VALUE_ROLL] axis_limit_bound [of ABS_MAX_VALUE_PITCH]
  by (auto simp add: xy_control_def cmd_shape_def Let_def ABS_MAX_VALUE_ROLL_def ABS_MAX_VALUE_PITCH_def
      split: prod.splits)

lemma xy_print_same: "xy_print s = Inr s' \<Longrightarrow> s' = s"
  by (auto simp add: xy_print_def split: option.splits if_splits)

lemma xy_shape:
  "xy lib inp s = Inr s' \<Longrightarrow> cmd_shape s \<Longrightarrow> cmd_shape s'"
  by (auto simp add: xy_def and_then_def split: if_splits sum.splits
      dest!: xy_print_same dest: xy_filter_shape intro: xy_control_shape)


lemma body_shape:
  assumes "body lib inp s = Inr s'" "cmd_shape s"
  shows "cmd_shape s'"
proof -
  from assms(1) obtain s1 s2 s3 where
    "vertical lib s = Inr s1" "landing s1 = Inr s2" "tof_read lib inp s2 = Inr s3" "xy lib inp s3 = Inr s'"
    by (auto simp add: body_def and_then_def split: sum.splits)
  with assms(2) show ?thesis
    using vertical_shape landing_shape tof_read_shape xy_shape by blast
qed

lemma takeoff_step_pipe: "ext_control_pipe (state_of (takeoff_step s)) = ext_control_pipe s"
  by (simp add: takeoff_step_def state_of_def split: list.splits option.splits)

lemma throttle_pid_pipe: "ext_control_pipe (state_of (throttle_pid lib s)) = ext_control_pipe s"
  by (simp add: throttle_pid_def state_of_def Let_def split: option.splits prod.splits)

lemma and_then_pipe:
  assumes "ext_control_pipe (state_of r) = q"
    and "\<And>s. ext_control_pipe (state_of (f s)) = ext_control_pipe s"
  shows "ext_control_pipe (state_of (and_then r f)) = q"
proof (cases r)
  case (Inl a)
  with assms(1) show ?thesis by (simp add: and_then_def)
next
  case (Inr s)
  with assms show ?thesis by (simp add: and_then_def state_of_def)
qed

lemma vertical_pipe: "ext_control_pipe (state_of (vertical lib s)) = ext_control_pipe s"
proof (cases "truthy (init_altitude s)")
  case False
  then show ?thesis by (simp add: vertical_def state_of_def)
next
  case True
  then show ?thesis
    by (simp add: vertical_def Let_def)
       (rule and_then_pipe, simp add: takeoff_step_pipe, rule throttle_pid_pipe)
qed

lemma landing_pipe: "ext_control_pipe (state_of (landing s)) = ext_control_pipe s"
  by (simp add: landing_def state_of_def split: option.splits)

lemma tof_read_pipe: "ext_control_pipe (state_of (tof_read lib inp s)) = ext_control_pipe s"
  by (simp add: tof_read_def state_of_def Let_def split: option.splits prod.splits)

lemma xy_filter_pipe: "ext_control_pipe (state_of (xy_filter lib inp s)) = ext_control_pipe s"
  by (simp add: xy_filter_def state_of_def Let_def split: option.splits prod.splits)

lemma xy_control_pipe: "ext_control_pipe (xy_control lib s) = ext_control_pipe s"
  by (simp add: xy_control_def Let_def split: prod.splits)

lemma xy_print_state: "state_of (xy_print s) = s"
  by (simp add: xy_print_def state_of_def split: option.splits)

lemma xy_pipe: "ext_control_pipe (state_of (xy lib inp s)) = ext_control_pipe s"
proof (cases "TAKEOFF s")
  case True
  then show ?thesis by (simp add: xy_def state_of_def)
next
  case False
  then show ?thesis
    by (simp add: xy_def)
       (rule and_then_pipe, rule xy_filter_pipe, simp add: xy_print_state xy_control_pipe)
qed

lemma body_pipe: "ext_control_pipe (state_of (body lib inp s)) = ext_control_pipe s"
  unfolding body_def
  by (intro and_then_pipe vertical_pipe landing_pipe tof_read_pipe xy_pipe)

lemma prelude_pipe: "ext_control_pipe (prelude inp s) = ext_control_pipe s"
  by (simp add: prelude_def read_imu_def read_mode_def begin_tick_def Let_def
      split: option.splits prod.splits)

lemma hold_reset_pipe: "ext_control_pipe (hold_reset s) = ext_control_pipe s"
  by (simp add: hold_reset_def split: option.splits)

lemma tick_cases:
  obtains (continued) "hold_reset_due (prelude inp s)"
      "tick lib inp s = (Continued, hold_reset (prelude inp s))"
  | (raised) e s' where "\<not> hold_reset_due (prelude inp s)"
      "body lib inp (prelude inp s) = Inl (e, s')" "tick lib inp s = (Raised e, s')"
  | (completed) s' where "\<not> hold_reset_due (prelude inp s)"
      "body lib inp (prelude inp s) = Inr s'"
      "tick lib inp s = (Completed, (publish s')\<lparr>prev_time := now inp\<rparr>)"
  by (cases "hold_reset_due (prelude inp s)"; cases "body lib inp (prelude inp s)")
     (auto simp add: tick_def)

text \<open>
  C1, as amended: on every iteration that publishes a command, its roll and pitch lie
  within \<open>ABS_MAX_VALUE_ROLL\<close> and \<open>ABS_MAX_VALUE_PITCH\<close>; its throttle is the default
  \<open>- 30\<close>, or the ramp value (the hover value being set to it), or the hover value
  less 50, or the sum of the controller output clamped to \<open>ABS_MAX_VALUE_THROTTLE\<close>
  and the hover value divided by the tilt: the limit bounds the controller's share, not
  the published throttle.
\<close>

theorem published_command_limits:
  assumes "ext_control_pipe (snd (tick lib inp s)) = ext_control_pipe s @ [c]"
  shows "\<bar>roll c\<bar> \<le> ABS_MAX_VALUE_ROLL \<and> \<bar>pitch c\<bar> \<le> ABS_MAX_VALUE_PITCH \<and>
         (throttle c = - 30 \<or>
          (\<exists>cg. cancel_gravity_value (snd (tick lib inp s)) = Some cg \<and>
             (throttle c = cg \<or> throttle c = cg - 50 \<or>
              \<bar>throttle c - cg / tilt (imu (snd (tick lib inp s)))\<bar> \<le> ABS_MAX_VALUE_THROTTLE)))"
proof (cases rule: tick_cases [of inp s lib])
  case continued
  with assms show ?thesis
    by (simp add: hold_reset_pipe prelude_pipe)
next
  case (raised e s')
  from body_pipe [of lib inp "prelude inp s"] raised(2)
  have "ext_control_pipe s' = ext_control_pipe s"
    by (simp add: state_of_def prelude_pipe)
  with assms raised(3) show ?thesis
    by simp
next
  case (completed s')
  from body_pipe [of lib inp "prelude inp s"] completed(2)
  have q: "ext_control_pipe s' = ext_control_pipe s"
    by (simp add: state_of_def prelude_pipe)
  have sh: "cmd_shape s'"
    using completed(2) cmd_shape_start by (rule body_shape)
  from assms completed(3) q have c: "c = CMDS s'"
    by (simp add: publish_def split: if_splits)
  have "cancel_gravity_value (snd (tick lib inp s)) = cancel_gravity_value s'"
       "imu (snd (tick lib inp s)) = imu s'"
    using completed(3) by (simp_all add: publish_def)
  with sh c show ?thesis
    by (simp add: cmd_shape_def)
qed

lemmas model_defs = tick_def prelude_def body_def begin_tick_def read_mode_def read_imu_def
  hold_reset_due_def hold_reset_def
  vertical_def takeoff_step_def throttle_pid_def landing_def tof_read_def xy_def xy_filter_def
  xy_control_def xy_print_def publish_def and_then_def truthy_def thrust_of_voltage_def py_int_def

lemma upt20: "[0..<20] = [0,1,2,3,4,5,6,7,8,9,10,11,12,13,14,15,16,17,18,19]"
  by (simp add: upt_rec)

lemmas example_defs = start_inputs_def init_state_def xy_of_filter_init_def quiet_def
  example_lib_def takeoff_profile_def upt20 Let_def

lemma ramp_tick_pipe:
  "ext_control_pipe (snd (tick example_lib (quiet 0.04) ramp_state)) =
     [\<lparr>throttle = takeoff_fraction 1 * 325, roll = 0, pitch = 0\<rparr>]"
  by (simp add: ramp_state_def pending_state_def example_defs model_defs)

lemma ramp_state_pipe: "ext_control_pipe ramp_state = []"
  by (simp add: ramp_state_def)

lemma takeoff_fraction_1: "1 / 2 \<le> takeoff_fraction 1"
proof -
  have "(2 :: real) \<le> exp 1"
    using exp_ge_add_one_self [of "1 :: real"] by simp
  then have "1 / exp (1 :: real) \<le> 1 / 2"
    by (simp add: field_simps)
  then show ?thesis
    by (simp add: takeoff_fraction_def)
qed

text \<open>
  C1.  The claim: every field of a published command lies within its limit, the throttle
  within 150.  On the second iteration of the ramp at 11.5 V the loop publishes the
  throttle \<open>(1 - 1 / e) * 325\<close>, which is above 162.
\<close>

theorem ramp_throttle_exceeds_limit:
  "ext_control_pipe (snd (tick example_lib (quiet 0.04) ramp_state)) =
     ext_control_pipe ramp_state @ [\<lparr>throttle = takeoff_fraction 1 * 325, roll = 0, pitch = 0\<rparr>] \<and>
   ABS_MAX_VALUE_THROTTLE < \<bar>throttle \<lparr>throttle = takeoff_fraction 1 * 325, roll = 0, pitch = 0\<rparr>\<bar>"
  unfolding ramp_tick_pipe ramp_state_pipe
  using takeoff_fraction_1 by (simp add: ABS_MAX_VALUE_THROTTLE_def)


text \<open>The same iteration is an instance of the amended C1: it publishes.\<close>

theorem published_command_limits_witness:
  "ext_control_pipe (snd (tick example_lib (quiet 0.04) ramp_state)) =
     ext_control_pipe ramp_state @ [\<lparr>throttle = takeoff_fraction 1 * 325, roll = 0, pitch = 0\<rparr>] \<and>
   \<bar>roll \<lparr>throttle = takeoff_fraction 1 * 325, roll = 0, pitch = 0\<rparr>\<bar> \<le> ABS_MAX_VALUE_ROLL \<and>
   \<bar>pitch \<lparr>throttle = takeoff_fraction 1 * 325, roll = 0, pitch = 0\<rparr>\<bar> \<le> ABS_MAX_VALUE_PITCH"
proof -
  have h: "ext_control_pipe (snd (tick example_lib (quiet 0.04) ramp_state)) =
     ext_control_pipe ramp_state @ [\<lparr>throttle = takeoff_fraction 1 * 325, roll = 0, pitch = 0\<rparr>]"
    unfolding ramp_tick_pipe ramp_state_pipe by simp
  from published_command_limits [OF h] h show ?thesis
    by blast
qed

section \<open>The outbound pipe\<close>

lemma publish_pipe:
  "ext_control_pipe (publish s) = ext_control_pipe s \<or>
   (ext_control_pipe s = [] \<and> ext_control_pipe (publish s) = [CMDS s])"
  by (simp add: publish_def)

lemma tick_pipe:
  "ext_control_pipe (snd (tick lib inp s)) = ext_control_pipe s \<or>
   (ext_control_pipe s = [] \<and> (\<exists>c. ext_control_pipe (snd (tick lib inp s)) = [c]))"
proof (cases rule: tick_cases [of inp s lib])
  case continued
  then show ?thesis by (simp add: hold_reset_pipe prelude_pipe)
next
  case (raised e s')
  from body_pipe [of lib inp "prelude inp s"] raised(2)
  have "ext_control_pipe s' = ext_control_pipe s"
    by (simp add: state_of_def prelude_pipe)
  with raised(3) show ?thesis by simp
next
  case (completed s')
  from body_pipe [of lib inp "prelude inp s"] completed(2)
  have "ext_control_pipe s' = ext_control_pipe s"
    by (simp add: state_of_def prelude_pipe)
  with completed(3) publish_pipe [of s'] show ?thesis by auto
qed

lemma tick_backpressure:
  "ext_control_pipe s \<noteq> [] \<Longrightarrow> ext_control_pipe (snd (tick lib inp s)) = ext_control_pipe s"
  using tick_pipe [of lib inp s] by auto

lemma tick_pending: "length (ext_control_pipe s) \<le> 1 \<Longrightarrow> length (ext_control_pipe (snd (tick lib inp s))) \<le> 1"
  using tick_pipe [of lib inp s] by auto

lemma init_state_pipe: "ext_control_pipe (init_state lib t0) = []"
  by (simp add: init_state_def split: prod.splits)

lemma reachable_pending: "s \<in> reachable lib \<Longrightarrow> length (ext_control_pipe s) \<le> 1"
proof (induction rule: reachable.induct)
  case (start t0)
  then show ?case by (simp add: init_state_pipe)
next
  case (iterate s inp)
  from iterate.IH show ?case by (rule tick_pending)
next
  case (consume s c cs)
  then show ?case by simp
qed

lemma run_reachable: "s \<in> reachable lib \<Longrightarrow> set (run lib inps s) \<subseteq> reachable lib"
proof (induction inps arbitrary: s)
  case Nil
  then show ?case by simp
next
  case (Cons i inps)
  have "snd (tick lib i s) \<in> reachable lib"
    using Cons.prems by (rule reachable.iterate)
  with Cons.IH show ?case by simp
qed

text \<open>
  C8: in every reachable state of the loop at most one command is pending on the outbound
  pipe, also after any number of further iterations on any inputs with no receive in
  between; and while a command is pending, iterations leave the pipe as it is, so the
  commands they compute are not enqueued.
\<close>

theorem at_most_one_pending:
  assumes "s \<in> reachable lib"
  shows "length (ext_control_pipe s) \<le> 1 \<and>
         (\<forall>s' \<in> set (run lib inps s). length (ext_control_pipe s') \<le> 1) \<and>
         (ext_control_pipe s \<noteq> [] \<longrightarrow>
            (\<forall>s' \<in> set (run lib inps s). ext_control_pipe s' = ext_control_pipe s))"
proof -
  have frozen: "ext_control_pipe s \<noteq> [] \<Longrightarrow>
      \<forall>s' \<in> set (run lib inps s). ext_control_pipe s' = ext_control_pipe s" for s :: "'a state"
  proof (induction inps arbitrary: s)
    case Nil
    then show ?case by simp
  next
    case (Cons i inps)
    have e: "ext_control_pipe (snd (tick lib i s)) = ext_control_pipe s"
      using Cons.prems by (rule tick_backpressure)
    with Cons.prems Cons.IH [of "snd (tick lib i s)"] show ?case by simp
  qed
  from assms run_reachable [of s lib inps] reachable_pending frozen show ?thesis
    by blast
qed

lemma pending_state_pipe: "ext_control_pipe pending_state = [\<lparr>throttle = 0, roll = 0, pitch = 0\<rparr>]"
  by (simp add: pending_state_def example_defs model_defs takeoff_fraction_def)

lemma pending_state_reachable: "pending_state \<in> reachable example_lib"
proof -
  have "init_state example_lib 0 \<in> reachable example_lib"
    by (rule reachable.start)
  then have "set (run example_lib start_inputs (init_state example_lib 0)) \<subseteq> reachable example_lib"
    by (rule run_reachable)
  moreover have "run example_lib start_inputs (init_state example_lib 0) \<noteq> []"
    by (simp add: start_inputs_def)
  ultimately show ?thesis
    unfolding pending_state_def using last_in_set by blast
qed

text \<open>
  An instance of C8: the state after \<open>start_inputs\<close> is reachable and has a command
  pending; two further iterations leave the pipe unchanged.
\<close>

theorem at_most_one_pending_witness:
  "pending_state \<in> reachable example_lib \<and>
   ext_control_pipe pending_state \<noteq> [] \<and>
   length (ext_control_pipe pending_state) \<le> 1 \<and>
   map ext_control_pipe (run example_lib [quiet 0.04, quiet 0.05] pending_state) =
     [ext_control_pipe pending_state, ext_control_pipe pending_state]"
proof -
  have ne: "ext_control_pipe pending_state \<noteq> []"
    by (simp add: pending_state_pipe)
  from at_most_one_pending [OF pending_state_reachable, of "[quiet 0.04, quiet 0.05]"] ne
  show ?thesis
    by (simp add: pending_state_reachable)
qed

section \<open>The re-latch\<close>

text \<open>
  C3, as amended: when the enable-hold signal arrives while the last range reading is a
  non-zero number \<open>a\<close>, the iteration ends at the re-latch (\<^verbatim>\<open>continue\<close>): the vertical
  filter state is set to \<open>[a, 0]\<close>, the vertical reference and the previous-altitude
  variable are set to \<open>a\<close>, and the hold request is cleared, so the next iteration
  without a new signal does not re-latch.  The horizontal reference \<open>init_x\<close>,
  \<open>init_y\<close> and the horizontal filter are left as they are, and so are the TAKEOFF and
  LANDING flags: the loop is in HOLD afterwards only if it was before.  Nothing is sent
  and \<open>prev_time\<close> is not advanced.
\<close>

theorem hold_reset_relatch:
  assumes "mode_msg inp = Some True" "altitude_sensor s = Some a" "a \<noteq> 0"
  shows "fst (tick lib inp s) = Continued \<and>
         kf_x (tof_filter (snd (tick lib inp s))) = mat_of [[a], [0]] \<and>
         init_altitude (snd (tick lib inp s)) = Some a \<and>
         prev_altitude_sensor (snd (tick lib inp s)) = Some a \<and>
         \<not> postition_hold (snd (tick lib inp s)) \<and>
         init_x (snd (tick lib inp s)) = init_x s \<and>
         init_y (snd (tick lib inp s)) = init_y s \<and>
         KFXY (snd (tick lib inp s)) = KFXY s \<and>
         TAKEOFF (snd (tick lib inp s)) = TAKEOFF s \<and>
         LANDING (snd (tick lib inp s)) = LANDING s \<and>
         ext_control_pipe (snd (tick lib inp s)) = ext_control_pipe s \<and>
         prev_time (snd (tick lib inp s)) = prev_time s \<and>
         (\<forall>inp'. mode_msg inp' = None \<longrightarrow> fst (tick lib inp' (snd (tick lib inp s))) \<noteq> Continued)"
proof -
  let ?p = "prelude inp s"
  have p: "postition_hold ?p" "altitude_sensor ?p = Some a" "init_x ?p = init_x s" "init_y ?p = init_y s"
    "KFXY ?p = KFXY s" "TAKEOFF ?p = TAKEOFF s" "LANDING ?p = LANDING s"
    "ext_control_pipe ?p = ext_control_pipe s" "prev_time ?p = prev_time s"
    using assms
    by (simp_all add: prelude_def read_imu_def read_mode_def begin_tick_def Let_def split: option.splits prod.splits)
  then have due: "hold_reset_due ?p"
    using assms(3) by (simp add: hold_reset_due_def truthy_def)
  then have t: "tick lib inp s = (Continued, hold_reset ?p)"
    by (simp add: tick_def)
  have "\<not> hold_reset_due (prelude inp' (hold_reset ?p))" if "mode_msg inp' = None" for inp'
    using that p(2)
    by (simp add: prelude_def read_imu_def read_mode_def begin_tick_def hold_reset_def hold_reset_due_def Let_def
        split: option.splits prod.splits)
  then have "fst (tick lib inp' (hold_reset ?p)) \<noteq> Continued" if "mode_msg inp' = None" for inp'
    using that by (cases "body lib inp' (prelude inp' (hold_reset ?p))") (auto simp add: tick_def)
  then show ?thesis
    using p by (simp add: t hold_reset_def)
qed

lemma hold_state_fields:
  "altitude_sensor hold_state = Some 1" "init_x hold_state = 0" "init_y hold_state = 0"
  "kf_x (KFXY hold_state) 0 0 = 0.5" "kf_x (KFXY hold_state) (Suc 0) 0 = 0.3"
  "\<not> TAKEOFF hold_state"
  by (simp_all add: hold_state_def ramp_state_def pending_state_def example_defs model_defs mat_of_def)

lemma first_relatch:
  "fst (tick example_lib (start_inputs ! 1) (run example_lib start_inputs (init_state example_lib 0) ! 0)) = Continued"
  by (simp add: example_defs model_defs)

lemma pending_state_takeoff: "TAKEOFF pending_state"
  by (simp add: pending_state_def example_defs model_defs)

text \<open>
  C3.  The claim: the re-latch also sets the horizontal reference to the current
  estimates, and the loop is in HOLD on the next iteration.  In \<open>hold_state\<close> the
  horizontal estimate is (0.5, 0.3); after the re-latch \<open>init_x\<close> and \<open>init_y\<close> are
  still 0.  And the first re-latch of a flight, the second iteration of
  \<open>start_inputs\<close>, is followed by the takeoff ramp, not by HOLD.
\<close>

theorem horizontal_reference_not_relatched:
  "fst (tick example_lib ((quiet 0.5)\<lparr>mode_msg := Some True\<rparr>) hold_state) = Continued \<and>
   kf_x (KFXY (snd (tick example_lib ((quiet 0.5)\<lparr>mode_msg := Some True\<rparr>) hold_state))) 0 0 = 0.5 \<and>
   init_x (snd (tick example_lib ((quiet 0.5)\<lparr>mode_msg := Some True\<rparr>) hold_state)) = 0 \<and>
   kf_x (KFXY (snd (tick example_lib ((quiet 0.5)\<lparr>mode_msg := Some True\<rparr>) hold_state))) 1 0 = 0.3 \<and>
   init_y (snd (tick example_lib ((quiet 0.5)\<lparr>mode_msg := Some True\<rparr>) hold_state)) = 0 \<and>
   fst (tick example_lib (start_inputs ! 1) (run example_lib start_inputs (init_state example_lib 0) ! 0)) = Continued \<and>
   TAKEOFF pending_state"
proof -
  have m: "mode_msg ((quiet 0.5)\<lparr>mode_msg := Some True\<rparr>) = Some True"
    by simp
  have t: "tick example_lib ((quiet 0.5)\<lparr>mode_msg := Some True\<rparr>) hold_state =
      (Continued, hold_reset (prelude ((quiet 0.5)\<lparr>mode_msg := Some True\<rparr>) hold_state))"
    by (simp add: tick_def hold_reset_due_def prelude_def read_mode_def read_imu_def begin_tick_def
        quiet_def truthy_def hold_state_fields)
  have "fst (tick example_lib ((quiet 0.5)\<lparr>mode_msg := Some True\<rparr>) hold_state) = Continued \<and>
   kf_x (KFXY (snd (tick example_lib ((quiet 0.5)\<lparr>mode_msg := Some True\<rparr>) hold_state))) 0 0 = 0.5 \<and>
   init_x (snd (tick example_lib ((quiet 0.5)\<lparr>mode_msg := Some True\<rparr>) hold_state)) = 0 \<and>
   kf_x (KFXY (snd (tick example_lib ((quiet 0.5)\<lparr>mode_msg := Some True\<rparr>) hold_state))) 1 0 = 0.3 \<and>
   init_y (snd (tick example_lib ((quiet 0.5)\<lparr>mode_msg := Some True\<rparr>) hold_state)) = 0"
    unfolding t
    by (simp add: hold_reset_def prelude_def read_mode_def read_imu_def begin_tick_def quiet_def
        hold_state_fields)
  with first_relatch pending_state_takeoff show ?thesis
    by blast
qed

text \<open>The re-latch in \<open>hold_state\<close> is an instance of the amended C3.\<close>

theorem hold_reset_relatch_witness:
  "mode_msg ((quiet 0.5)\<lparr>mode_msg := Some True\<rparr>) = Some True \<and>
   altitude_sensor hold_state = Some 1 \<and> (1 :: real) \<noteq> 0 \<and>
   fst (tick example_lib ((quiet 0.5)\<lparr>mode_msg := Some True\<rparr>) hold_state) = Continued \<and>
   kf_x (tof_filter (snd (tick example_lib ((quiet 0.5)\<lparr>mode_msg := Some True\<rparr>) hold_state))) = mat_of [[1], [0]] \<and>
   init_altitude (snd (tick example_lib ((quiet 0.5)\<lparr>mode_msg := Some True\<rparr>) hold_state)) = Some 1 \<and>
   init_x (snd (tick example_lib ((quiet 0.5)\<lparr>mode_msg := Some True\<rparr>) hold_state)) = init_x hold_state"
proof -
  have m: "mode_msg ((quiet 0.5)\<lparr>mode_msg := Some True\<rparr>) = Some True"
    by simp
  have a: "altitude_sensor hold_state = Some 1"
    by (rule hold_state_fields)
  have z: "(1 :: real) \<noteq> 0"
    by simp
  from hold_reset_relatch [OF m a z, of example_lib] m a z show ?thesis
    by blast
qed


section \<open>Zero readings\<close>

lemma as_eq: "same_but_altitude_sensor a b \<Longrightarrow> a = b\<lparr>altitude_sensor := altitude_sensor a\<rparr>"
proof -
  assume "same_but_altitude_sensor a b"
  then have "(a\<lparr>altitude_sensor := None\<rparr>)\<lparr>altitude_sensor := altitude_sensor a\<rparr> =
             (b\<lparr>altitude_sensor := None\<rparr>)\<lparr>altitude_sensor := altitude_sensor a\<rparr>"
    by (simp only: same_but_altitude_sensor_def)
  then show ?thesis by simp
qed

lemma landing_as: "same_but_altitude_sensor a b \<Longrightarrow> same_res same_but_altitude_sensor (landing a) (landing b)"
  by (drule as_eq, erule ssubst)
     (simp add: landing_def same_res_def same_but_altitude_sensor_def split: option.splits)

lemma tof_read_as: "same_but_altitude_sensor a b \<Longrightarrow> same_res same_but_altitude_sensor (tof_read lib inp a) (tof_read lib inp b)"
  by (drule as_eq, erule ssubst)
     (simp add: tof_read_def same_res_def same_but_altitude_sensor_def Let_def split: option.splits prod.splits)

lemma vertical_as: "same_but_altitude_sensor a b \<Longrightarrow> same_res same_but_altitude_sensor (vertical lib a) (vertical lib b)"
  by (drule as_eq, erule ssubst)
     (simp add: vertical_def takeoff_step_def throttle_pid_def and_then_def same_res_def
        same_but_altitude_sensor_def Let_def split: list.splits option.splits prod.splits)

lemma and_then_same:
  assumes "same_res R r1 r2" and "\<And>a b. R a b \<Longrightarrow> same_res R (f a) (f b)"
  shows "same_res R (and_then r1 f) (and_then r2 f)"
  using assms by (cases r1; cases r2) (auto simp add: same_res_def and_then_def)

lemma xy_filter_as: "same_but_altitude_sensor a b \<Longrightarrow> same_res same_but_altitude_sensor (xy_filter lib inp a) (xy_filter lib inp b)"
  by (drule as_eq, erule ssubst)
     (simp add: xy_filter_def same_res_def same_but_altitude_sensor_def Let_def split: option.splits prod.splits)

lemma xy_control_as: "xy_control lib (s\<lparr>altitude_sensor := v\<rparr>) = (xy_control lib s)\<lparr>altitude_sensor := v\<rparr>"
  by (simp add: xy_control_def Let_def split: prod.splits)

lemma xy_print_as: "same_but_altitude_sensor a b \<Longrightarrow> same_res same_but_altitude_sensor (xy_print a) (xy_print b)"
  by (drule as_eq, erule ssubst)
     (simp add: xy_print_def same_res_def same_but_altitude_sensor_def split: option.splits)

lemma xy_control_same_as:
  "same_but_altitude_sensor a b \<Longrightarrow> same_but_altitude_sensor (xy_control lib a) (xy_control lib b)"
  by (drule as_eq, erule ssubst) (simp add: xy_control_as same_but_altitude_sensor_def)

lemma xy_as: "same_but_altitude_sensor a b \<Longrightarrow> same_res same_but_altitude_sensor (xy lib inp a) (xy lib inp b)"
proof -
  assume r: "same_but_altitude_sensor a b"
  then have t: "TAKEOFF a = TAKEOFF b"
    by (drule_tac as_eq) (erule ssubst, simp)
  show ?thesis
  proof (cases "TAKEOFF b")
    case True
    with t r show ?thesis by (simp add: xy_def same_res_def)
  next
    case False
    with t show ?thesis
      by (simp add: xy_def)
         (intro and_then_same xy_filter_as r xy_print_as xy_control_same_as)
  qed
qed


lemma body_as: "same_but_altitude_sensor a b \<Longrightarrow> same_res same_but_altitude_sensor (body lib inp a) (body lib inp b)"
  unfolding body_def
  by (intro and_then_same vertical_as landing_as tof_read_as xy_as)

lemma finish_as:
  "same_but_altitude_sensor a b \<Longrightarrow>
   same_but_altitude_sensor ((publish a)\<lparr>prev_time := t\<rparr>) ((publish b)\<lparr>prev_time := t\<rparr>)"
  by (drule as_eq, erule ssubst) (simp add: publish_def same_but_altitude_sensor_def)

lemma prelude_as: "prelude inp (s\<lparr>altitude_sensor := v\<rparr>) = (prelude inp s)\<lparr>altitude_sensor := v\<rparr>"
  by (simp add: prelude_def read_imu_def read_mode_def begin_tick_def Let_def split: option.splits prod.splits)

lemma tick_falsy_sensor:
  assumes "\<not> truthy v" "\<not> truthy w"
  shows "fst (tick lib inp (s\<lparr>altitude_sensor := v\<rparr>)) \<noteq> Continued \<and>
         fst (tick lib inp (s\<lparr>altitude_sensor := v\<rparr>)) = fst (tick lib inp (s\<lparr>altitude_sensor := w\<rparr>)) \<and>
         same_but_altitude_sensor (snd (tick lib inp (s\<lparr>altitude_sensor := v\<rparr>)))
           (snd (tick lib inp (s\<lparr>altitude_sensor := w\<rparr>)))"
proof -
  let ?a = "(prelude inp s)\<lparr>altitude_sensor := v\<rparr>" and ?b = "(prelude inp s)\<lparr>altitude_sensor := w\<rparr>"
  have nd: "\<not> hold_reset_due ?a" "\<not> hold_reset_due ?b"
    using assms by (simp_all add: hold_reset_due_def)
  have "same_but_altitude_sensor ?a ?b"
    by (simp add: same_but_altitude_sensor_def)
  then have "same_res same_but_altitude_sensor (body lib inp ?a) (body lib inp ?b)"
    by (rule body_as)
  then show ?thesis
    using nd finish_as [of _ _ "now inp"]
    by (cases "body lib inp ?a"; cases "body lib inp ?b")
       (auto simp add: tick_def prelude_as same_res_def)
qed

lemma ia_eq:
  assumes "same_but_falsy_reference a b"
  obtains v where "a = b\<lparr>init_altitude := v\<rparr>" "\<not> truthy v" "\<not> truthy (init_altitude b)"
proof -
  from assms have "(a\<lparr>init_altitude := None\<rparr>)\<lparr>init_altitude := init_altitude a\<rparr> =
             (b\<lparr>init_altitude := None\<rparr>)\<lparr>init_altitude := init_altitude a\<rparr>"
    by (simp only: same_but_falsy_reference_def)
  then have "a = b\<lparr>init_altitude := init_altitude a\<rparr>" by simp
  with assms that show ?thesis
    by (simp add: same_but_falsy_reference_def)
qed

lemma vertical_ia:
  assumes "same_but_falsy_reference a b"
  shows "same_res same_but_falsy_reference (vertical lib a) (vertical lib b)"
  using assms by (simp add: vertical_def same_res_def same_but_falsy_reference_def)

lemma landing_ia:
  assumes "same_but_falsy_reference a b"
  shows "same_res same_but_falsy_reference (landing a) (landing b)"
proof -
  from assms obtain v where "a = b\<lparr>init_altitude := v\<rparr>" "\<not> truthy v" "\<not> truthy (init_altitude b)"
    by (rule ia_eq)
  then show ?thesis
    by (simp add: landing_def same_res_def same_but_falsy_reference_def split: option.splits)
qed

lemma tof_read_ia:
  assumes "same_but_falsy_reference a b"
  shows "same_res same_but_falsy_reference (tof_read lib inp a) (tof_read lib inp b)"
proof -
  from assms obtain v where "a = b\<lparr>init_altitude := v\<rparr>" "\<not> truthy v" "\<not> truthy (init_altitude b)"
    by (rule ia_eq)
  then show ?thesis
    by (simp add: tof_read_def same_res_def same_but_falsy_reference_def split: option.splits prod.splits)
qed

lemma xy_filter_ia:
  assumes "same_but_falsy_reference a b"
  shows "same_res same_but_falsy_reference (xy_filter lib inp a) (xy_filter lib inp b)"
proof -
  from assms obtain v where "a = b\<lparr>init_altitude := v\<rparr>" "\<not> truthy v" "\<not> truthy (init_altitude b)"
    by (rule ia_eq)
  then show ?thesis
    by (simp add: xy_filter_def same_res_def same_but_falsy_reference_def Let_def split: option.splits prod.splits)
qed

lemma xy_control_ia: "xy_control lib (s\<lparr>init_altitude := v\<rparr>) = (xy_control lib s)\<lparr>init_altitude := v\<rparr>"
  by (simp add: xy_control_def Let_def split: prod.splits)

lemma xy_control_same_ia:
  assumes "same_but_falsy_reference a b"
  shows "same_but_falsy_reference (xy_control lib a) (xy_control lib b)"
proof -
  from assms obtain v where "a = b\<lparr>init_altitude := v\<rparr>" "\<not> truthy v" "\<not> truthy (init_altitude b)"
    by (rule ia_eq)
  moreover have "init_altitude (xy_control lib b) = init_altitude b"
    by (simp add: xy_control_def Let_def split: prod.splits)
  ultimately show ?thesis
    by (simp add: xy_control_ia same_but_falsy_reference_def)
qed

lemma xy_print_ia:
  assumes "same_but_falsy_reference a b"
  shows "same_res same_but_falsy_reference (xy_print a) (xy_print b)"
proof -
  from assms obtain v where "a = b\<lparr>init_altitude := v\<rparr>" "\<not> truthy v" "\<not> truthy (init_altitude b)"
    by (rule ia_eq)
  then show ?thesis
    by (simp add: xy_print_def same_res_def same_but_falsy_reference_def split: option.splits)
qed

lemma xy_ia:
  assumes r: "same_but_falsy_reference a b"
  shows "same_res same_but_falsy_reference (xy lib inp a) (xy lib inp b)"
proof -
  from r obtain v where "a = b\<lparr>init_altitude := v\<rparr>"
    by (rule ia_eq)
  then have t: "TAKEOFF a = TAKEOFF b"
    by simp
  show ?thesis
  proof (cases "TAKEOFF b")
    case True
    with t r show ?thesis by (simp add: xy_def same_res_def)
  next
    case False
    with t show ?thesis
      by (simp add: xy_def)
         (intro and_then_same xy_filter_ia r xy_print_ia xy_control_same_ia)
  qed
qed

lemma body_ia: "same_but_falsy_reference a b \<Longrightarrow> same_res same_but_falsy_reference (body lib inp a) (body lib inp b)"
  unfolding body_def
  by (intro and_then_same vertical_ia landing_ia tof_read_ia xy_ia)

lemma finish_ia:
  assumes "same_but_falsy_reference a b"
  shows "same_but_falsy_reference ((publish a)\<lparr>prev_time := t\<rparr>) ((publish b)\<lparr>prev_time := t\<rparr>)"
proof -
  from assms obtain v where "a = b\<lparr>init_altitude := v\<rparr>" "\<not> truthy v" "\<not> truthy (init_altitude b)"
    by (rule ia_eq)
  then show ?thesis
    by (simp add: publish_def same_but_falsy_reference_def)
qed

lemma prelude_ia:
  assumes "\<not> truthy v" "\<not> truthy w"
  shows "same_but_falsy_reference (prelude inp (s\<lparr>init_altitude := v\<rparr>)) (prelude inp (s\<lparr>init_altitude := w\<rparr>))"
  using assms
  by (simp add: prelude_def read_imu_def read_mode_def begin_tick_def Let_def same_but_falsy_reference_def truthy_def
      split: option.splits prod.splits)

lemma hold_reset_ia:
  assumes "same_but_falsy_reference a b" "hold_reset_due b"
  shows "hold_reset_due a \<and> hold_reset a = hold_reset b"
proof -
  from assms(1) obtain v where e: "a = b\<lparr>init_altitude := v\<rparr>"
    by (rule ia_eq)
  from assms(2) obtain x where x: "altitude_sensor b = Some x"
    by (cases "altitude_sensor b") (simp_all add: hold_reset_due_def truthy_def)
  have "hold_reset_due a"
    using assms(2) by (simp add: e hold_reset_due_def)
  moreover have "hold_reset a = hold_reset b"
    by (simp add: e x hold_reset_def)
  ultimately show ?thesis
    by simp
qed

lemma not_due_ia:
  assumes "same_but_falsy_reference a b" "\<not> hold_reset_due b"
  shows "\<not> hold_reset_due a"
proof -
  from assms(1) obtain v where "a = b\<lparr>init_altitude := v\<rparr>"
    by (rule ia_eq)
  with assms(2) show ?thesis
    by (simp add: hold_reset_due_def)
qed

lemma tick_falsy_reference:
  assumes "\<not> truthy v" "\<not> truthy w"
  shows "fst (tick lib inp (s\<lparr>init_altitude := v\<rparr>)) = fst (tick lib inp (s\<lparr>init_altitude := w\<rparr>)) \<and>
         (snd (tick lib inp (s\<lparr>init_altitude := v\<rparr>)))\<lparr>init_altitude := None\<rparr> =
         (snd (tick lib inp (s\<lparr>init_altitude := w\<rparr>)))\<lparr>init_altitude := None\<rparr>"
proof -
  let ?a = "prelude inp (s\<lparr>init_altitude := v\<rparr>)" and ?b = "prelude inp (s\<lparr>init_altitude := w\<rparr>)"
  have r: "same_but_falsy_reference ?a ?b"
    using assms by (rule prelude_ia)
  show ?thesis
  proof (cases "hold_reset_due ?b")
    case True
    with r have "hold_reset_due ?a \<and> hold_reset ?a = hold_reset ?b"
      by (rule hold_reset_ia)
    with True show ?thesis by (simp add: tick_def)
  next
    case False
    with r have nd: "\<not> hold_reset_due ?a"
      by (rule not_due_ia)
    from r have "same_res same_but_falsy_reference (body lib inp ?a) (body lib inp ?b)"
      by (rule body_ia)
    then show ?thesis
      using nd False finish_ia [of _ _ "now inp"]
      by (cases "body lib inp ?a"; cases "body lib inp ?b")
         (auto simp add: tick_def same_res_def same_but_falsy_reference_def)
  qed
qed

text \<open>
  C10: presence is decided by truth value.  With a last range reading of exactly 0 the
  iteration never re-latches, whatever the hold signal; with a reference altitude of
  exactly 0 the vertical block is skipped and leaves the state as it is; and an iteration
  started with the reading (or the reference) at 0 has the same outcome as one started
  with it at \<^verbatim>\<open>None\<close> and ends in the same state, that variable apart.
\<close>

theorem zero_reading_is_absence:
  "fst (tick lib inp (s\<lparr>altitude_sensor := Some 0\<rparr>)) \<noteq> Continued \<and>
   vertical lib (s\<lparr>init_altitude := Some 0\<rparr>) = Inr (s\<lparr>init_altitude := Some 0\<rparr>) \<and>
   fst (tick lib inp (s\<lparr>altitude_sensor := Some 0\<rparr>)) = fst (tick lib inp (s\<lparr>altitude_sensor := None\<rparr>)) \<and>
   (snd (tick lib inp (s\<lparr>altitude_sensor := Some 0\<rparr>)))\<lparr>altitude_sensor := None\<rparr> =
   (snd (tick lib inp (s\<lparr>altitude_sensor := None\<rparr>)))\<lparr>altitude_sensor := None\<rparr> \<and>
   fst (tick lib inp (s\<lparr>init_altitude := Some 0\<rparr>)) = fst (tick lib inp (s\<lparr>init_altitude := None\<rparr>)) \<and>
   (snd (tick lib inp (s\<lparr>init_altitude := Some 0\<rparr>)))\<lparr>init_altitude := None\<rparr> =
   (snd (tick lib inp (s\<lparr>init_altitude := None\<rparr>)))\<lparr>init_altitude := None\<rparr>"
proof -
  have f: "\<not> truthy (Some 0)" "\<not> truthy None"
    by (simp_all add: truthy_def)
  have v: "vertical lib (s\<lparr>init_altitude := Some 0\<rparr>) = Inr (s\<lparr>init_altitude := Some 0\<rparr>)"
    by (simp add: vertical_def truthy_def)
  from tick_falsy_sensor [OF f, of lib inp s] tick_falsy_reference [OF f, of lib inp s] v
  show ?thesis
    unfolding same_but_altitude_sensor_def by blast
qed


section \<open>The horizontal filter\<close>

lemma xy_control_KFXY: "KFXY (xy_control lib s) = KFXY s" "KFXY_z (xy_control lib s) = KFXY_z s"
  by (simp_all add: xy_control_def Let_def split: prod.splits)

lemma xy_block_quiet:
  assumes "\<not> TAKEOFF s" "velocity s = Some v" "of_msg inp = None"
  shows "KFXY (state_of (xy lib inp s)) =
           kf_predict lib (xy_set_matrices (KFXY s) v (prev_time s - OF_TIME s) (prev_time s - IMU_TIME s)) 0"
  using assms
  by (simp add: xy_def xy_filter_def and_then_def Let_def xy_print_state xy_control_KFXY)

lemma xy_block_flow:
  assumes "\<not> TAKEOFF s" "velocity s = Some v" "of_msg inp = Some (fx, fy, t)" "altitude s = Some al"
  shows "KFXY (state_of (xy lib inp s)) =
           kf_predict lib
             (kf_update lib
                (xy_set_matrices (KFXY s) v (prev_time s - OF_TIME s) (prev_time s - IMU_TIME s))
                (xy_measurement (store_flow (KFXY_z s) fx fy) al)) 0"
    and "KFXY_z (state_of (xy lib inp s)) = store_flow (KFXY_z s) fx fy"
  using assms
  by (simp_all add: xy_def xy_filter_def and_then_def Let_def xy_print_state xy_control_KFXY)

lemma xy_measurement_flow: "xy_measurement (store_flow z fx fy) al = [fx * (- al), fy * (- al)]"
  by (simp add: xy_measurement_def store_flow_def mat_set_def)

lemma xy_H:
  "kf_H (fst (xy_of_filter_init lib)) 0 = (\<lambda>j. if j = 2 then 1 else 0)"
  "kf_H (fst (xy_of_filter_init lib)) 1 = (\<lambda>j. if j = 3 then 1 else 0)"
  by (auto simp add: xy_of_filter_init_def Let_def mat_of_def fun_eq_iff nth_Cons split: nat.splits)


text \<open>
  C6, as amended: on every iteration outside TAKEOFF both diagonal entries of the
  horizontal filter's measurement-noise matrix are set to \<open>0.01 + velocity / 100\<close>,
  with the signed vertical velocity, before the filter is updated (when a flow sample has
  arrived) and predicted; for a negative velocity the entries are below 0.01.
\<close>

theorem flow_noise_signed:
  assumes "\<not> TAKEOFF s" "velocity s = Some v"
  shows "kf_R (xy_set_matrices (KFXY s) v (prev_time s - OF_TIME s) (prev_time s - IMU_TIME s)) 0 0 = 0.01 + v / 100 \<and>
         kf_R (xy_set_matrices (KFXY s) v (prev_time s - OF_TIME s) (prev_time s - IMU_TIME s)) 1 1 = 0.01 + v / 100 \<and>
         (of_msg inp = None \<longrightarrow>
            KFXY (state_of (xy lib inp s)) =
              kf_predict lib (xy_set_matrices (KFXY s) v (prev_time s - OF_TIME s) (prev_time s - IMU_TIME s)) 0) \<and>
         (\<forall>fx fy t al. of_msg inp = Some (fx, fy, t) \<longrightarrow> altitude s = Some al \<longrightarrow>
            KFXY (state_of (xy lib inp s)) =
              kf_predict lib
                (kf_update lib
                   (xy_set_matrices (KFXY s) v (prev_time s - OF_TIME s) (prev_time s - IMU_TIME s))
                   (xy_measurement (store_flow (KFXY_z s) fx fy) al)) 0)"
  using assms xy_block_quiet [of s v inp lib] xy_block_flow(1) [of s v inp _ _ _ _ lib]
  by (simp add: xy_set_matrices_entries)

lemma hold_state_xy:
  "\<not> TAKEOFF hold_state" "velocity hold_state = Some 0" "altitude hold_state = Some 1"
  "prev_time hold_state = 0.03" "OF_TIME hold_state = 0" "IMU_TIME hold_state = 0"
  by (simp_all add: hold_state_def ramp_state_def pending_state_def example_defs model_defs)

text \<open>
  C6.  The claim: the entries are \<open>0.01 + \<bar>velocity\<bar> / 100\<close>, never below 0.01.  At a
  vertical velocity of \<open>- 1\<close> the claim gives 0.02; the filter is predicted with both
  entries at 0.
\<close>

theorem flow_noise_below_floor:
  "\<not> TAKEOFF (hold_state\<lparr>velocity := Some (- 1)\<rparr>) \<and>
   velocity (hold_state\<lparr>velocity := Some (- 1)\<rparr>) = Some (- 1) \<and>
   KFXY (state_of (xy example_lib (quiet 0.04) (hold_state\<lparr>velocity := Some (- 1)\<rparr>))) =
     textbook_predict (xy_set_matrices (KFXY hold_state) (- 1) 0.03 0.03) 0 \<and>
   kf_R (xy_set_matrices (KFXY hold_state) (- 1) 0.03 0.03) 0 0 = 0 \<and>
   kf_R (xy_set_matrices (KFXY hold_state) (- 1) 0.03 0.03) 1 1 = 0 \<and>
   0.01 + \<bar>- 1\<bar> / 100 = (0.02 :: real)"
proof -
  have "KFXY (state_of (xy example_lib (quiet 0.04) (hold_state\<lparr>velocity := Some (- 1)\<rparr>))) =
     kf_predict example_lib (xy_set_matrices (KFXY hold_state) (- 1) 0.03 0.03) 0"
    by (subst xy_block_quiet [where v = "- 1"]) (simp_all add: hold_state_xy quiet_def)
  then show ?thesis
    by (simp add: xy_set_matrices_entries hold_state_xy example_lib_def)
qed

text \<open>The same block is an instance of the amended C6.\<close>

theorem flow_noise_signed_witness:
  "\<not> TAKEOFF (hold_state\<lparr>velocity := Some (- 1)\<rparr>) \<and>
   velocity (hold_state\<lparr>velocity := Some (- 1)\<rparr>) = Some (- 1) \<and>
   kf_R (xy_set_matrices (KFXY hold_state) (- 1) 0.03 0.03) 0 0 = 0.01 + (- 1) / 100 \<and>
   KFXY (state_of (xy example_lib (quiet 0.04) (hold_state\<lparr>velocity := Some (- 1)\<rparr>))) =
     textbook_predict (xy_set_matrices (KFXY hold_state) (- 1) 0.03 0.03) 0"
proof -
  have a: "\<not> TAKEOFF (hold_state\<lparr>velocity := Some (- 1)\<rparr>)"
    by (simp add: hold_state_xy)
  have b: "velocity (hold_state\<lparr>velocity := Some (- 1)\<rparr>) = Some (- 1)"
    by simp
  from flow_noise_signed [OF a b, of "quiet 0.04" example_lib] a b show ?thesis
    by (simp add: hold_state_xy quiet_def example_lib_def)
qed

text \<open>
  C5, as amended: for every flow sample \<open>(fx, fy, t)\<close> processed outside TAKEOFF the
  update measurement is \<open>[fx * (- altitude), fy * (- altitude)]\<close>: the sample scaled by
  the negative of the altitude estimate, in the order received.  The first component
  is measurement channel 0, which \<open>H\<close> reads from state entry 2 (\<open>vx\<close>), the second is
  channel 1, which \<open>H\<close> reads from state entry 3 (\<open>vy\<close>); the loop does not swap them
  and never writes \<open>H\<close>.
\<close>

theorem flow_measurement_channels:
  assumes "\<not> TAKEOFF s" "velocity s = Some v" "altitude s = Some al" "of_msg inp = Some (fx, fy, t)"
  shows "KFXY (state_of (xy lib inp s)) =
           kf_predict lib
             (kf_update lib
                (xy_set_matrices (KFXY s) v (prev_time s - OF_TIME s) (prev_time s - IMU_TIME s))
                [fx * (- al), fy * (- al)]) 0 \<and>
         KFXY_z (state_of (xy lib inp s)) 0 0 = fx \<and> KFXY_z (state_of (xy lib inp s)) 1 0 = fy \<and>
         kf_H (fst (xy_of_filter_init lib)) 0 = (\<lambda>j. if j = 2 then 1 else 0) \<and>
         kf_H (fst (xy_of_filter_init lib)) 1 = (\<lambda>j. if j = 3 then 1 else 0) \<and>
         kf_H (xy_set_matrices (KFXY s) v (prev_time s - OF_TIME s) (prev_time s - IMU_TIME s)) = kf_H (KFXY s)"
proof -
  note f = xy_block_flow [OF assms(1,2,4,3), of lib]
  have 1: "KFXY (state_of (xy lib inp s)) =
           kf_predict lib
             (kf_update lib
                (xy_set_matrices (KFXY s) v (prev_time s - OF_TIME s) (prev_time s - IMU_TIME s))
                [fx * (- al), fy * (- al)]) 0"
    using f(1) by (simp only: xy_measurement_flow)
  have 2: "KFXY_z (state_of (xy lib inp s)) 0 0 = fx" "KFXY_z (state_of (xy lib inp s)) 1 0 = fy"
    unfolding f(2) by (simp_all add: store_flow_def mat_set_def)
  have 3: "kf_H (xy_set_matrices (KFXY s) v (prev_time s - OF_TIME s) (prev_time s - IMU_TIME s)) = kf_H (KFXY s)"
    by (simp add: xy_set_matrices_def)
  from 1 2 3 xy_H [of lib] show ?thesis
    by blast
qed

lemma hold_state_H: "kf_H (KFXY hold_state) = kf_H (fst (xy_of_filter_init example_lib))"
  by (simp add: hold_state_def ramp_state_def pending_state_def example_defs model_defs)

text \<open>
  C5.  The claim: a flow sample \<open>(dx = 1, dy = 0)\<close> at an altitude estimate of \<open>- 2\<close>
  puts 2 on the y measurement channel.  The update is called with \<open>[2, 0]\<close>: the 2 is
  on channel 0 (\<open>vx\<close>), and channel 1 (\<open>vy\<close>) gets 0.
\<close>

theorem flow_axes_not_swapped:
  "KFXY (state_of (xy example_lib ((quiet 0.04)\<lparr>of_msg := Some (1, 0, 0.035)\<rparr>) (hold_state\<lparr>altitude := Some (- 2)\<rparr>))) =
     textbook_predict (textbook_update (xy_set_matrices (KFXY hold_state) 0 0.03 0.03) [2, 0]) 0 \<and>
   kf_H (KFXY hold_state) 0 = (\<lambda>j. if j = 2 then 1 else 0) \<and>
   kf_H (KFXY hold_state) 1 = (\<lambda>j. if j = 3 then 1 else 0) \<and>
   [2, 0 :: real] ! 1 \<noteq> 2"
proof -
  have "KFXY (state_of (xy example_lib ((quiet 0.04)\<lparr>of_msg := Some (1, 0, 0.035)\<rparr>) (hold_state\<lparr>altitude := Some (- 2)\<rparr>))) =
     kf_predict example_lib (kf_update example_lib (xy_set_matrices (KFXY hold_state) 0 0.03 0.03)
        (xy_measurement (store_flow (KFXY_z (hold_state\<lparr>altitude := Some (- 2)\<rparr>)) 1 0) (- 2))) 0"
    by (subst xy_block_flow(1) [where v = 0 and al = "- 2" and fx = 1 and fy = 0 and t = "0.035"])
       (simp_all add: hold_state_xy quiet_def)
  then have 1: "KFXY (state_of (xy example_lib ((quiet 0.04)\<lparr>of_msg := Some (1, 0, 0.035)\<rparr>) (hold_state\<lparr>altitude := Some (- 2)\<rparr>))) =
     textbook_predict (textbook_update (xy_set_matrices (KFXY hold_state) 0 0.03 0.03) [2, 0]) 0"
    by (simp add: xy_measurement_flow example_lib_def)
  have 2: "kf_H (KFXY hold_state) 0 = (\<lambda>j. if j = 2 then 1 else 0)"
    unfolding hold_state_H by (rule xy_H)
  have 3: "kf_H (KFXY hold_state) 1 = (\<lambda>j. if j = 3 then 1 else 0)"
    unfolding hold_state_H by (rule xy_H)
  have 4: "[2, 0 :: real] ! 1 \<noteq> 2"
    by simp
  from 1 2 3 4 show ?thesis
    by blast
qed

text \<open>The same block is an instance of the amended C5.\<close>

theorem flow_measurement_channels_witness:
  "\<not> TAKEOFF (hold_state\<lparr>altitude := Some (- 2)\<rparr>) \<and>
   velocity (hold_state\<lparr>altitude := Some (- 2)\<rparr>) = Some 0 \<and>
   altitude (hold_state\<lparr>altitude := Some (- 2)\<rparr>) = Some (- 2) \<and>
   of_msg ((quiet 0.04)\<lparr>of_msg := Some (1, 0, 0.035)\<rparr>) = Some (1, 0, 0.035) \<and>
   KFXY_z (state_of (xy example_lib ((quiet 0.04)\<lparr>of_msg := Some (1, 0, 0.035)\<rparr>) (hold_state\<lparr>altitude := Some (- 2)\<rparr>))) 0 0 = 1 \<and>
   KFXY_z (state_of (xy example_lib ((quiet 0.04)\<lparr>of_msg := Some (1, 0, 0.035)\<rparr>) (hold_state\<lparr>altitude := Some (- 2)\<rparr>))) 1 0 = 0"
proof -
  have a: "\<not> TAKEOFF (hold_state\<lparr>altitude := Some (- 2)\<rparr>)"
    and b: "velocity (hold_state\<lparr>altitude := Some (- 2)\<rparr>) = Some 0"
    and c: "altitude (hold_state\<lparr>altitude := Some (- 2)\<rparr>) = Some (- 2)"
    and d: "of_msg ((quiet 0.04)\<lparr>of_msg := Some (1, 0, 0.035)\<rparr>) = Some (1, 0, 0.035)"
    by (simp_all add: hold_state_xy)
  from flow_measurement_channels [OF a b c d, of example_lib] a b c d show ?thesis
    by blast
qed


section \<open>The vertical filter's measurement\<close>

lemma hold_state_more:
  "TAKEOFF_LIST hold_state = []" "\<not> LANDING hold_state" "\<not> postition_hold hold_state"
  "init_altitude hold_state = Some 1" "TOF_Time hold_state = 0" "imu hold_state = level"
  "cancel_gravity_value hold_state = Some (takeoff_fraction 19 * 325)"
  "altitude_corrected hold_state = Some 1" "prev_altitude_sensor hold_state = Some 1"
  "error_altitude hold_state = Some 0" "next_throttle hold_state = Some 0"
  "oft hold_state" "imut hold_state" "toft hold_state" "dt hold_state = Some 0.01"
  by (simp_all add: hold_state_def ramp_state_def pending_state_def example_defs model_defs
      TAKEOFF_ALTITUDE_def level_def)

lemma corrected_level: "corrected_altitude a level = a" "mount_offset level = 0.05517 * sin 0.81"
  by (simp_all add: corrected_altitude_def mount_offset_def level_def)

lemma first_tick:
  "fst (tick example_lib first_sample hold_state) = Completed"
  "prev_altitude_sensor after_first_sample = Some 1"
  "altitude_corrected after_first_sample = Some 1"
  "dt after_first_sample = Some 0.03"
  "prev_time after_first_sample = 0.04"
  "TOF_Time after_first_sample = 0.035"
  "tof_filter after_first_sample =
     textbook_update (textbook_predict (tof_set_dt (tof_filter hold_state) 0.03) 0)
       (tof_measurement 1 level 1 0.03)"
  "\<not> TAKEOFF after_first_sample" "\<not> LANDING after_first_sample" "\<not> postition_hold after_first_sample"
  "init_altitude after_first_sample = Some 1" "imu after_first_sample = level"
  "cancel_gravity_value after_first_sample = Some (takeoff_fraction 19 * 325)"
  "oft after_first_sample" "imut after_first_sample" "toft after_first_sample"
  unfolding after_first_sample_def
  by (simp_all add: first_sample_def quiet_def model_defs example_lib_def Let_def hold_state_more hold_state_xy
      corrected_level spec_pid_calc_def)

lemma second_tick:
  "fst (tick example_lib second_sample after_first_sample) = Completed"
  "prev_altitude_sensor (snd (tick example_lib second_sample after_first_sample)) = Some 1"
  "dt (snd (tick example_lib second_sample after_first_sample)) = Some 0.005"
  "tof_filter (snd (tick example_lib second_sample after_first_sample)) =
     textbook_update (textbook_predict (tof_set_dt (tof_filter after_first_sample) 0.005) 0)
       (tof_measurement 1 level 1 0.005)"
  by (simp_all add: second_sample_def quiet_def model_defs example_lib_def Let_def
      first_tick corrected_level spec_pid_calc_def)

lemma sin_081: "1 / 2 \<le> sin (0.81 :: real)"
proof -
  have "pi / 6 \<le> (0.81 :: real)"
    using pi_less_4 by simp
  moreover have "(0.81 :: real) \<le> pi / 2"
    using pi_ge_two by simp
  moreover have "- (pi / 2) \<le> pi / 6"
    using pi_gt_zero by simp
  ultimately have "sin (pi / 6) \<le> sin (0.81 :: real)"
    using sin_monotone_2pi_le [of "pi / 6" "0.81"] by blast
  then show ?thesis
    by (simp add: sin_30)
qed

lemma truncate2_le: "a \<le> real_of_int k / 100 \<Longrightarrow> k \<le> 0 \<Longrightarrow> truncate2 a \<le> real_of_int k / 100"
proof -
  assume a: "a \<le> real_of_int k / 100" and k: "k \<le> 0"
  then have "a * 100 \<le> real_of_int k"
    by simp
  then have c: "\<lceil>a * 100\<rceil> \<le> k"
    by (simp add: ceiling_le_iff)
  show ?thesis
  proof (cases "0 \<le> a * 100")
    case True
    with \<open>a * 100 \<le> real_of_int k\<close> k have "a * 100 = 0" "k = 0"
      by simp_all
    then show ?thesis
      by (simp add: truncate2_eq py_int_def)
  next
    case False
    with c show ?thesis
      by (simp add: truncate2_eq py_int_def)
  qed
qed

lemma stationary_velocity: "truncate2 (- (0.05517 * sin 0.81) / 0.005) \<le> - 5.51"
proof -
  have "- (0.05517 * sin (0.81 :: real)) / 0.005 \<le> real_of_int (- 551) / 100"
    using sin_081 by simp
  then have "truncate2 (- (0.05517 * sin (0.81 :: real)) / 0.005) \<le> real_of_int (- 551) / 100"
    by (rule truncate2_le) simp
  then show ?thesis
    by simp
qed


text \<open>
  C4.  The claim: the measurement is \<open>[truncate2 c, truncate2 ((c - p) / dt)]\<close> with
  \<open>c\<close> the tilt- and offset-corrected reading and \<open>p\<close> the \<open>c\<close> of the previous update.
  The vector has that form, but \<open>p\<close> is \<^verbatim>\<open>prev_altitude_sensor\<close>, which line 209 sets
  to \<^verbatim>\<open>altitude_corrected\<close>, the tilt-corrected reading before the offset is
  subtracted.  Two equal readings of 1 m at level attitude: the first update has
  \<open>c < 1\<close>, the value kept for the second is 1, and the second update is handed a
  velocity measurement of at most \<open>- 5.51\<close> where \<open>(c - c) / dt\<close> is 0.
\<close>

theorem previous_altitude_lacks_offset:
  "tof_measurement a i p d =
     [truncate2 (a * cos (imu_roll i * pi * 1 / 180) * cos (imu_pitch i * pi * 1 / 180) -
                 0.05517 * sin (0.81 - imu_roll i * pi * 1 / 180) * cos (imu_pitch i * pi * 1 / 180)),
      truncate2 ((a * cos (imu_roll i * pi * 1 / 180) * cos (imu_pitch i * pi * 1 / 180) -
                  0.05517 * sin (0.81 - imu_roll i * pi * 1 / 180) * cos (imu_pitch i * pi * 1 / 180) - p) / d)] \<and>
   tof_filter after_first_sample =
     textbook_update (textbook_predict (tof_set_dt (tof_filter hold_state) 0.03) 0)
       (tof_measurement 1 level 1 0.03) \<and>
   corrected_altitude 1 level - mount_offset level < 1 \<and>
   altitude_corrected after_first_sample = Some 1 \<and>
   prev_altitude_sensor (snd (tick example_lib second_sample after_first_sample)) = Some 1 \<and>
   tof_filter (snd (tick example_lib second_sample after_first_sample)) =
     textbook_update (textbook_predict (tof_set_dt (tof_filter after_first_sample) 0.005) 0)
       (tof_measurement 1 level 1 0.005) \<and>
   tof_measurement 1 level 1 0.005 ! 1 \<le> - 5.51"
proof -
  have m: "tof_measurement a i p d =
     [truncate2 (a * cos (imu_roll i * pi * 1 / 180) * cos (imu_pitch i * pi * 1 / 180) -
                 0.05517 * sin (0.81 - imu_roll i * pi * 1 / 180) * cos (imu_pitch i * pi * 1 / 180)),
      truncate2 ((a * cos (imu_roll i * pi * 1 / 180) * cos (imu_pitch i * pi * 1 / 180) -
                  0.05517 * sin (0.81 - imu_roll i * pi * 1 / 180) * cos (imu_pitch i * pi * 1 / 180) - p) / d)]"
    by (simp add: tof_measurement_def corrected_altitude_def mount_offset_def)
  have c: "corrected_altitude 1 level - mount_offset level < 1"
    using sin_081 by (simp add: corrected_level)
  have "tof_measurement 1 level 1 0.005 ! 1 = truncate2 (- (0.05517 * sin 0.81) / 0.005)"
    by (simp add: tof_measurement_def corrected_level)
  with stationary_velocity have v: "tof_measurement 1 level 1 0.005 ! 1 \<le> - 5.51"
    by simp
  from m c v first_tick(3,7) second_tick(2,4) show ?thesis
    by blast
qed


section \<open>The takeoff ramp\<close>

lemma state_of_and_then:
  "state_of (and_then r f) = (case r of Inl (e, s) \<Rightarrow> s | Inr s \<Rightarrow> state_of (f s))"
  by (simp add: and_then_def state_of_def split: sum.splits)

lemma and_then_keeps:
  assumes "P (state_of r)" and "\<And>s. P s \<Longrightarrow> P (state_of (f s))"
  shows "P (state_of (and_then r f))"
  using assms by (cases r) (auto simp add: and_then_def state_of_def)

lemma tick_snd:
  assumes "\<not> hold_reset_due (prelude inp s)"
  shows "snd (tick lib inp s) = state_of (body lib inp (prelude inp s)) \<or>
         snd (tick lib inp s) = (publish (state_of (body lib inp (prelude inp s))))\<lparr>prev_time := now inp\<rparr>"
  using assms by (cases "body lib inp (prelude inp s)") (auto simp add: tick_def state_of_def)




















lemma body_keeps:
  assumes v: "P (state_of (vertical lib s))"
    and l: "\<And>s. P s \<Longrightarrow> P (state_of (landing s))"
    and t: "\<And>s. P s \<Longrightarrow> P (state_of (tof_read lib inp s))"
    and x: "\<And>s. P s \<Longrightarrow> P (state_of (xy lib inp s))"
  shows "P (state_of (body lib inp s))"
proof -
  have "P (state_of (and_then (vertical lib s) landing))"
    using v l by (rule and_then_keeps [where P = P])
  then have "P (state_of (and_then (and_then (vertical lib s) landing) (tof_read lib inp)))"
    using t by (rule and_then_keeps [where P = P])
  then show ?thesis
    unfolding body_def using x by (rule and_then_keeps [where P = P])
qed


















section \<open>The horizontal reference\<close>

text \<open>
  \<^verbatim>\<open>init_x\<close> and \<^verbatim>\<open>init_y\<close> are assigned once, before the loop (lines 123-124), and only
  read afterwards (lines 262-263): no block of the iteration changes them, and in every
  reachable state both are 0.
\<close>

lemma vertical_origin:
  "init_x (state_of (vertical lib s)) = init_x s"
  "init_y (state_of (vertical lib s)) = init_y s"
  by (simp_all add: vertical_def Let_def takeoff_step_def and_then_def throttle_pid_def tof_set_dt_def
      state_of_def split: option.splits prod.splits list.splits sum.splits)

lemma landing_origin:
  "init_x (state_of (landing s)) = init_x s"
  "init_y (state_of (landing s)) = init_y s"
  by (simp_all add: landing_def state_of_def split: option.splits)

lemma tof_read_origin:
  "init_x (state_of (tof_read lib inp s)) = init_x s"
  "init_y (state_of (tof_read lib inp s)) = init_y s"
  by (simp_all add: tof_read_def state_of_def Let_def split: option.splits prod.splits)

lemma xy_filter_origin:
  "init_x (state_of (xy_filter lib inp s)) = init_x s"
  "init_y (state_of (xy_filter lib inp s)) = init_y s"
  by (simp_all add: xy_filter_def state_of_def Let_def split: option.splits prod.splits)

lemma xy_control_origin:
  "init_x (xy_control lib s) = init_x s"
  "init_y (xy_control lib s) = init_y s"
  by (simp_all add: xy_control_def Let_def split: prod.splits)

lemma xy_origin:
  "init_x (state_of (xy lib inp s)) = init_x s"
  "init_y (state_of (xy lib inp s)) = init_y s"
  using xy_filter_origin [of lib inp s]
  by (cases "xy_filter lib inp s";
      simp add: xy_def state_of_and_then xy_print_state xy_control_origin, simp add: state_of_def)+

lemma body_origin:
  "init_x (state_of (body lib inp s)) = init_x s \<and> init_y (state_of (body lib inp s)) = init_y s"
  by (rule body_keeps [where P = "\<lambda>s'. init_x s' = init_x s \<and> init_y s' = init_y s"])
     (simp_all add: vertical_origin landing_origin tof_read_origin xy_origin)

lemma prelude_origin:
  "init_x (prelude inp s) = init_x s"
  "init_y (prelude inp s) = init_y s"
  by (simp_all add: prelude_def read_mode_def read_imu_def begin_tick_def Let_def split: option.splits prod.splits)

lemma tick_origin:
  "init_x (snd (tick lib inp s)) = init_x s \<and> init_y (snd (tick lib inp s)) = init_y s"
proof (cases "hold_reset_due (prelude inp s)")
  case True
  then show ?thesis
    by (simp add: tick_def hold_reset_def prelude_origin split: option.splits)
next
  case False
  from tick_snd [OF False, of lib] body_origin [of lib inp "prelude inp s"] show ?thesis
    by (auto simp add: publish_def prelude_origin)
qed

lemma reachable_origin: "s \<in> reachable lib \<Longrightarrow> init_x s = 0 \<and> init_y s = 0"
proof (induction rule: reachable.induct)
  case (start t0)
  show ?case
    by (simp add: init_state_def Let_def split: prod.splits)
next
  case (iterate s inp)
  with tick_origin [of lib inp s] show ?case
    by simp
next
  case (consume s c cs)
  then show ?case
    by simp
qed

end
